theory Spec2Isabelle
  imports Complex_Main "HOL-Library.Char_ord"
begin

section \<open>The DWR response decoder of bbfetch (blackboard/dwr.py)\<close>

text \<open>
  The decoder \<^verbatim>\<open>parse_js\<close> scans the text of a DWR reply with one regular expression,
  executes the recognised statements against a dictionary of local variables, and returns
  a dictionary from call id to the delivered data. Literal texts inside the statements are
  evaluated by \<^verbatim>\<open>js_object_parse\<close>, which hands the text to Python's own expression parser
  and walks the resulting syntax tree.

  The embedding follows the source function by function. Python's \<^verbatim>\<open>str\<close> is modelled as
  \<open>string\<close>, one \<open>char\<close> per code point, so texts are restricted to code points below 256.
  Python's library functions the source calls (\<^verbatim>\<open>str.strip\<close>, \<^verbatim>\<open>str.split\<close>, \<^verbatim>\<open>int\<close>,
  \<^verbatim>\<open>re.finditer\<close>, \<^verbatim>\<open>ast.parse\<close>) are modelled alongside; exceptions are values of the
  type \<open>error\<close>, and a function that may raise returns \<open>error + 'a\<close>.
\<close>

subsection \<open>Values and exceptions\<close>

text \<open>
  The Python values the decoder builds: \<^verbatim>\<open>None\<close>, \<^verbatim>\<open>bool\<close>, \<^verbatim>\<open>int\<close>, \<^verbatim>\<open>float\<close>, \<^verbatim>\<open>str\<close>,
  \<^verbatim>\<open>list\<close> and \<^verbatim>\<open>collections.OrderedDict\<close> (an association list in insertion order).
  A \<^verbatim>\<open>float\<close> is represented by the exact rational value of the literal it was read from:
  the rounding of a decimal literal to a binary floating-point number is not modelled.
\<close>

datatype number = PyInt int | PyFloat rat

datatype val =
    PyNone
  | PyBool bool
  | PyNum number
  | PyStr string
  | PyList "val list"
  | PyDict "(val \<times> val) list"

text \<open>
  The source raises \<^verbatim>\<open>ValueError\<close> at three places of its own: an unhandled syntax node in
  the literal evaluator, an unrecognised fragment of the reply (\<open>DidNotParse\<close>, the spec's
  ParseError), and exceptions reported by the remote side (\<open>DWRReturnedExceptions\<close>, the
  spec's RemoteExceptionError). Python raises it for a failed tuple unpacking and for
  \<^verbatim>\<open>int\<close> of a text that is no integer. The other exceptions come from Python itself:
  \<^verbatim>\<open>SyntaxError\<close> from \<^verbatim>\<open>ast.parse\<close>, \<^verbatim>\<open>KeyError\<close> (a \<^verbatim>\<open>LookupError\<close>) from a dictionary
  lookup, \<^verbatim>\<open>TypeError\<close> and \<^verbatim>\<open>IndexError\<close> from operations on values of the wrong kind.
\<close>

datatype value_error =
    UnhandledNodeType
  | DidNotParse string
  | DWRReturnedExceptions "(int \<times> int \<times> val \<times> val) list"
  | Unpack
  | InvalidLiteral

datatype error =
    SyntaxError
  | ValueError value_error
  | KeyError string
  | TypeError
  | IndexError

subsection \<open>Python's string functions\<close>

definition is_digit :: "char \<Rightarrow> bool" where
  "is_digit c = (CHR ''0'' \<le> c \<and> c \<le> CHR ''9'')"

definition digit_val :: "char \<Rightarrow> nat" where
  "digit_val c = of_char c - 48"

definition nat_of_digits :: "string \<Rightarrow> nat" where
  "nat_of_digits ds = foldl (\<lambda>n c. 10 * n + digit_val c) 0 ds"

text \<open>\<^verbatim>\<open>str.isspace\<close> on the code points below 256.\<close>

definition py_isspace :: "char \<Rightarrow> bool" where
  "py_isspace c =
     ((CHR 0x09 \<le> c \<and> c \<le> CHR 0x0D) \<or> (CHR 0x1C \<le> c \<and> c \<le> CHR 0x20)
      \<or> c = CHR 0x85 \<or> c = CHR 0xA0)"

text \<open>\<^verbatim>\<open>s.strip()\<close>\<close>

definition strip :: "string \<Rightarrow> string" where
  "strip s = rev (dropWhile py_isspace (rev (dropWhile py_isspace s)))"

text \<open>\<^verbatim>\<open>s.split(sep)\<close> for a separator of one character.\<close>

fun split :: "char \<Rightarrow> string \<Rightarrow> string list" where
  "split sep [] = [[]]"
| "split sep (c # cs) =
     (if c = sep then [] # split sep cs
      else (case split sep cs of [] \<Rightarrow> [[c]] | w # ws \<Rightarrow> (c # w) # ws))"

text \<open>\<^verbatim>\<open>s[i:j]\<close> for indices that are not negative.\<close>

definition slice :: "string \<Rightarrow> nat \<Rightarrow> nat \<Rightarrow> string" where
  "slice s i j = take (j - i) (drop i s)"

text \<open>
  \<^verbatim>\<open>int(s)\<close>: surrounding whitespace and one sign are accepted around the decimal digits.
\<close>

definition py_int :: "string \<Rightarrow> error + int" where
  "py_int s =
     (let t = strip s;
          neg = (case t of c # _ \<Rightarrow> c = CHR ''-'' | [] \<Rightarrow> False);
          ds = (case t of c # r \<Rightarrow> if c = CHR ''+'' \<or> c = CHR ''-'' then r else t | [] \<Rightarrow> t)
      in if ds \<noteq> [] \<and> list_all is_digit ds
         then Inr (if neg then - int (nat_of_digits ds) else int (nat_of_digits ds))
         else Inl (ValueError InvalidLiteral))"

subsection \<open>Regular expressions: the part of Python's \<^verbatim>\<open>re\<close> the decoder uses\<close>

text \<open>
  A pattern is a literal character, a character class given by ranges (\<open>OneOf\<close>) or its
  complement (\<open>NoneOf\<close>), the dot (any character but a newline), a sequence, an
  alternation, a greedy star or a capturing group with its number. A non-capturing group
  is the pattern inside it.

  \<open>rmatch r s\<close> lists every way \<open>r\<close> matches a prefix of \<open>s\<close>, in the order in which a
  backtracking matcher tries them: the left alternative first, the longer repetition
  first. Each entry holds the matched text, the groups closed on the way (in closing
  order) and the rest of the input. The head of the list is the match Python reports.
\<close>

datatype regex =
    Chr char
  | OneOf "(char \<times> char) list"
  | NoneOf "(char \<times> char) list"
  | Dot
  | Empty
  | Seq regex regex
  | Alt regex regex
  | Star regex
  | Group nat regex

type_synonym mres = "string \<times> (nat \<times> string) list \<times> string"

fun in_ranges :: "(char \<times> char) list \<Rightarrow> char \<Rightarrow> bool" where
  "in_ranges [] c = False"
| "in_ranges ((lo, hi) # rs) c = ((lo \<le> c \<and> c \<le> hi) \<or> in_ranges rs c)"

fun close_group :: "nat \<Rightarrow> mres \<Rightarrow> mres" where
  "close_group i (w, caps, rest) = (w, caps @ [(i, w)], rest)"

fun prefix_res :: "string \<Rightarrow> (nat \<times> string) list \<Rightarrow> mres \<Rightarrow> mres" where
  "prefix_res w0 caps0 (w, caps, rest) = (w0 @ w, caps0 @ caps, rest)"

function rmatch :: "regex \<Rightarrow> string \<Rightarrow> mres list"
  and rmatch_then :: "regex \<Rightarrow> mres list \<Rightarrow> mres list"
  and rmatch_star :: "regex \<Rightarrow> string \<Rightarrow> mres list \<Rightarrow> mres list"
where
  "rmatch (Chr a) s =
     (case s of [] \<Rightarrow> [] | c # t \<Rightarrow> if c = a then [([c], [], t)] else [])"
| "rmatch (OneOf rs) s =
     (case s of [] \<Rightarrow> [] | c # t \<Rightarrow> if in_ranges rs c then [([c], [], t)] else [])"
| "rmatch (NoneOf rs) s =
     (case s of [] \<Rightarrow> [] | c # t \<Rightarrow> if in_ranges rs c then [] else [([c], [], t)])"
| "rmatch Dot s =
     (case s of [] \<Rightarrow> [] | c # t \<Rightarrow> if c = CHR 0x0A then [] else [([c], [], t)])"
| "rmatch Empty s = [([], [], s)]"
| "rmatch (Seq a b) s = rmatch_then b (rmatch a s)"
| "rmatch (Alt a b) s = rmatch a s @ rmatch b s"
| "rmatch (Star r) s = rmatch_star r s (rmatch r s) @ [([], [], s)]"
| "rmatch (Group i r) s = map (close_group i) (rmatch r s)"
| "rmatch_then b [] = []"
| "rmatch_then b (x # xs) =
     map (prefix_res (fst x) (fst (snd x))) (rmatch b (snd (snd x))) @ rmatch_then b xs"
| "rmatch_star r s [] = []"
| "rmatch_star r s (x # xs) =
     (if length (snd (snd x)) < length s
      then map (prefix_res (fst x) (fst (snd x))) (rmatch (Star r) (snd (snd x)))
      else []) @ rmatch_star r s xs"
  by pat_completeness auto
termination
  by (relation "measures
        [\<lambda>x. case x of Inl (r, s) \<Rightarrow> 2 * size r + 2
                     | Inr (Inl (b, xs)) \<Rightarrow> 2 * size b + 3
                     | Inr (Inr (r, s, xs)) \<Rightarrow> 2 * size (Star r) + 2,
         \<lambda>x. case x of Inl (r, s) \<Rightarrow> length s
                     | Inr (Inl (b, xs)) \<Rightarrow> 0
                     | Inr (Inr (r, s, xs)) \<Rightarrow> length s,
         \<lambda>x. case x of Inl (r, s) \<Rightarrow> 1
                     | Inr (Inl (b, xs)) \<Rightarrow> 0
                     | Inr (Inr (r, s, xs)) \<Rightarrow> 0,
         \<lambda>x. case x of Inl (r, s) \<Rightarrow> 0
                     | Inr (Inl (b, xs)) \<Rightarrow> length xs
                     | Inr (Inr (r, s, xs)) \<Rightarrow> length xs]") auto

text \<open>
  Groups are numbered by their opening parenthesis, from the left. Patterns are written
  with every group numbered 0 and \<open>number_groups\<close> assigns the numbers, starting from the
  given one; it returns the next free number.
\<close>

fun number_groups :: "nat \<Rightarrow> regex \<Rightarrow> nat \<times> regex" where
  "number_groups n (Seq a b) =
     (case number_groups n a of (n1, a') \<Rightarrow>
        (case number_groups n1 b of (n2, b') \<Rightarrow> (n2, Seq a' b')))"
| "number_groups n (Alt a b) =
     (case number_groups n a of (n1, a') \<Rightarrow>
        (case number_groups n1 b of (n2, b') \<Rightarrow> (n2, Alt a' b')))"
| "number_groups n (Star r) = (case number_groups n r of (n1, r') \<Rightarrow> (n1, Star r'))"
| "number_groups n (Group i r) =
     (case number_groups (Suc n) r of (n1, r') \<Rightarrow> (n1, Group n r'))"
| "number_groups n r = (n, r)"

text \<open>
  A compiled pattern: the numbered expression, the number of its groups and the names
  of its named groups.
\<close>

record re_pattern =
  rx :: regex
  ngroups :: nat
  groupnames :: "(nat \<times> string) list"

text \<open>
  The match object: \<^verbatim>\<open>start(0)\<close>, \<^verbatim>\<open>end(0)\<close>, \<^verbatim>\<open>lastindex\<close> (the group closed last),
  \<^verbatim>\<open>lastgroup\<close> (its name) and \<^verbatim>\<open>groups()\<close> (the text of every group of the pattern,
  \<^verbatim>\<open>None\<close> for a group that took no part in the match).
\<close>

record match_obj =
  mstart :: nat
  mend :: nat
  lastindex :: "nat option"
  lastgroup :: "string option"
  groups :: "string option list"

fun groups_upto :: "(nat \<times> string) list \<Rightarrow> nat \<Rightarrow> string option list" where
  "groups_upto caps 0 = []"
| "groups_upto caps (Suc n) = groups_upto caps n @ [map_of caps (Suc n)]"

definition mk_match :: "re_pattern \<Rightarrow> nat \<Rightarrow> string \<Rightarrow> (nat \<times> string) list \<Rightarrow> match_obj" where
  "mk_match p pos w caps =
     \<lparr>mstart = pos, mend = pos + length w,
      lastindex = (case rev caps of [] \<Rightarrow> None | (i, _) # _ \<Rightarrow> Some i),
      lastgroup = (case rev caps of [] \<Rightarrow> None | (i, _) # _ \<Rightarrow> map_of (groupnames p) i),
      groups = groups_upto (rev caps) (ngroups p)\<rparr>"

text \<open>
  \<^verbatim>\<open>re.finditer\<close>: the matches from left to right, none overlapping another. At each
  position the pattern is tried; where it fails the scan moves on by one character, and
  after a match it continues at the end of the match (one character further after
  an empty match).
\<close>

function finditer_at :: "re_pattern \<Rightarrow> nat \<Rightarrow> string \<Rightarrow> match_obj list" where
  "finditer_at p pos s =
     (case rmatch (rx p) s of
        [] \<Rightarrow> (case s of [] \<Rightarrow> [] | c # t \<Rightarrow> finditer_at p (Suc pos) t)
      | m # _ \<Rightarrow>
          (case s of
             [] \<Rightarrow> [mk_match p pos (fst m) (fst (snd m))]
           | c # t \<Rightarrow>
               if fst m = [] then mk_match p pos (fst m) (fst (snd m)) # finditer_at p (Suc pos) t
               else mk_match p pos (fst m) (fst (snd m))
                      # finditer_at p (pos + length (fst m)) (drop (length (fst m)) s)))"
  by pat_completeness auto
termination
  by (relation "measure (\<lambda>(p, pos, s). length s)") auto

definition finditer :: "re_pattern \<Rightarrow> string \<Rightarrow> match_obj list" where
  "finditer p s = finditer_at p 0 s"

subsection \<open>Python's expression parser: the part of \<^verbatim>\<open>ast.parse\<close> the evaluator relies on\<close>

text \<open>
  The syntax nodes the evaluator meets. \<open>NameConstant\<close> is the node of \<^verbatim>\<open>None\<close>, \<^verbatim>\<open>True\<close>
  and \<^verbatim>\<open>False\<close>; a \<open>Dict\<close> node holds its keys and its values in two lists.
\<close>

datatype unaryop = UAdd | USub

datatype expr =
    Name string
  | NameConstant
  | Num number
  | Str string
  | List "expr list"
  | Dict "expr list" "expr list"
  | UnaryOp unaryop expr

text \<open>
  \<open>ast_parse\<close> models \<^verbatim>\<open>ast.parse(s, mode='eval')\<close> on one-line texts made of names,
  decimal integers, decimal floats (with an optional exponent), string literals in single
  or double quotes with backslash escapes (adjacent literals are joined), list and dict
  displays, parentheses around an expression, unary plus and minus, and blanks between
  the tokens. On such a text the result is the tree Python builds, or \<open>SyntaxError\<close> where
  Python rejects the text.

  Every other text yields \<open>SyntaxError\<close> here. Python rejects most of them as well, or
  parses them to a node the evaluator refuses, so that the evaluation fails either way
  (with \<^verbatim>\<open>ValueError\<close> in place of \<^verbatim>\<open>SyntaxError\<close>). Left out, although Python parses them to
  a tree the evaluator accepts, are: line breaks and comments inside or after the
  expression, integers in base 2, 8 or 16, imaginary numbers, string prefixes and
  triple-quoted strings, the escape \<^verbatim>\<open>\N{...}\<close>, escapes that denote a code point above
  255, and characters above 127 in a name.
\<close>

datatype token = NAME string | NUMBER number | STRING string | OP char

definition is_id_start :: "char \<Rightarrow> bool" where
  "is_id_start c =
     ((CHR ''a'' \<le> c \<and> c \<le> CHR ''z'') \<or> (CHR ''A'' \<le> c \<and> c \<le> CHR ''Z'') \<or> c = CHR ''_'')"

definition is_id_char :: "char \<Rightarrow> bool" where
  "is_id_char c = (is_id_start c \<or> is_digit c)"

definition is_octal :: "char \<Rightarrow> bool" where
  "is_octal c = (CHR ''0'' \<le> c \<and> c \<le> CHR ''7'')"

definition hex_val :: "char \<Rightarrow> nat option" where
  "hex_val c =
     (if is_digit c then Some (of_char c - 48)
      else if CHR ''a'' \<le> c \<and> c \<le> CHR ''f'' then Some (of_char c - 87)
      else if CHR ''A'' \<le> c \<and> c \<le> CHR ''F'' then Some (of_char c - 55)
      else None)"

fun hex_number :: "nat \<Rightarrow> string \<Rightarrow> nat option" where
  "hex_number n [] = Some n"
| "hex_number n (c # cs) =
     (case hex_val c of None \<Rightarrow> None | Some d \<Rightarrow> hex_number (16 * n + d) cs)"

text \<open>
  The body of a string literal opened by the quote \<open>q\<close>: the text up to the closing
  quote, a backslash taking the next character with it, and the rest of the input after
  the closing quote. A line break or the end of the input before the closing quote is an
  error.
\<close>

fun string_body :: "char \<Rightarrow> string \<Rightarrow> (string \<times> string) option" where
  "string_body q [] = None"
| "string_body q (c # cs) =
     (if c = q then Some ([], cs)
      else if c = CHR 0x0A \<or> c = CHR 0x0D then None
      else if c = CHR 0x5C then
        (case cs of
           [] \<Rightarrow> None
         | d # ds \<Rightarrow>
             (case string_body q ds of
                None \<Rightarrow> None
              | Some (b, r) \<Rightarrow> Some (c # d # b, r)))
      else
        (case string_body q cs of
           None \<Rightarrow> None
         | Some (b, r) \<Rightarrow> Some (c # b, r)))"

definition code_point :: "nat \<Rightarrow> string \<Rightarrow> error + string" where
  "code_point n s = (if n < 256 then Inr (char_of n # s) else Inl SyntaxError)"

definition simple_escapes :: "(char \<times> char) list" where
  "simple_escapes =
     [(CHR 0x5C, CHR 0x5C), (CHR 0x27, CHR 0x27), (CHR 0x22, CHR 0x22),
      (CHR ''a'', CHR 0x07), (CHR ''b'', CHR 0x08), (CHR ''f'', CHR 0x0C),
      (CHR ''n'', CHR 0x0A), (CHR ''r'', CHR 0x0D), (CHR ''t'', CHR 0x09),
      (CHR ''v'', CHR 0x0B)]"

text \<open>
  The value of a string body: the escapes of a Python string literal replaced. An
  escape Python does not know stays as it is, backslash included.
\<close>

function unescape :: "string \<Rightarrow> error + string" where
  "unescape [] = Inr []"
| "unescape [c] = Inr [c]"
| "unescape (c # d # cs) =
     (if c \<noteq> CHR 0x5C then
        (case unescape (d # cs) of Inl e \<Rightarrow> Inl e | Inr s \<Rightarrow> Inr (c # s))
      else if d = CHR 0x0A then unescape cs
      else if d = CHR ''x'' then
        (case hex_number 0 (take 2 cs) of
           None \<Rightarrow> Inl SyntaxError
         | Some n \<Rightarrow>
             if length cs < 2 then Inl SyntaxError
             else (case unescape (drop 2 cs) of Inl e \<Rightarrow> Inl e | Inr s \<Rightarrow> code_point n s))
      else if d = CHR ''u'' then
        (case hex_number 0 (take 4 cs) of
           None \<Rightarrow> Inl SyntaxError
         | Some n \<Rightarrow>
             if length cs < 4 then Inl SyntaxError
             else (case unescape (drop 4 cs) of Inl e \<Rightarrow> Inl e | Inr s \<Rightarrow> code_point n s))
      else if d = CHR ''U'' then
        (case hex_number 0 (take 8 cs) of
           None \<Rightarrow> Inl SyntaxError
         | Some n \<Rightarrow>
             if length cs < 8 then Inl SyntaxError
             else (case unescape (drop 8 cs) of Inl e \<Rightarrow> Inl e | Inr s \<Rightarrow> code_point n s))
      else if d = CHR ''N'' then Inl SyntaxError
      else if is_octal d then
        (let ds = d # takeWhile is_octal (take 2 cs);
             n = foldl (\<lambda>n c. 8 * n + digit_val c) 0 ds
         in case unescape (drop (length ds - 1) cs) of
              Inl e \<Rightarrow> Inl e
            | Inr s \<Rightarrow> code_point n s)
      else
        (case map_of simple_escapes d of
           Some x \<Rightarrow> (case unescape cs of Inl e \<Rightarrow> Inl e | Inr s \<Rightarrow> Inr (x # s))
         | None \<Rightarrow> (case unescape cs of Inl e \<Rightarrow> Inl e | Inr s \<Rightarrow> Inr (c # d # s))))"
  by pat_completeness auto
termination
  by (relation "measure length") auto

definition is_pointfloat_start :: "string \<Rightarrow> bool" where
  "is_pointfloat_start s = (case s of c # d # _ \<Rightarrow> c = CHR ''.'' \<and> is_digit d | _ \<Rightarrow> False)"

definition scan_exponent :: "string \<Rightarrow> (int \<times> string) option" where
  "scan_exponent s =
     (case s of
        [] \<Rightarrow> None
      | e # r \<Rightarrow>
          if e = CHR ''e'' \<or> e = CHR ''E'' then
            (let neg = (case r of c # _ \<Rightarrow> c = CHR ''-'' | [] \<Rightarrow> False);
                 r' = (case r of
                         c # t \<Rightarrow> if c = CHR ''+'' \<or> c = CHR ''-'' then t else r
                       | [] \<Rightarrow> r);
                 ds = takeWhile is_digit r'
             in if ds = [] then None
                else Some (if neg then - int (nat_of_digits ds) else int (nat_of_digits ds),
                           dropWhile is_digit r'))
          else None)"

definition pow10 :: "int \<Rightarrow> rat" where
  "pow10 k = (if 0 \<le> k then 10 ^ nat k else 1 / 10 ^ nat (- k))"

text \<open>
  A number token: digits, an optional point with more digits, an optional exponent. With
  neither point nor exponent it is an integer, which Python refuses when it has a
  leading zero and is not zero.
\<close>

definition scan_number :: "string \<Rightarrow> (number \<times> string) option" where
  "scan_number s =
     (let ip = takeWhile is_digit s; r1 = dropWhile is_digit s;
          point = (case r1 of c # _ \<Rightarrow> c = CHR ''.'' | [] \<Rightarrow> False);
          fp = (if point then takeWhile is_digit (tl r1) else []);
          r2 = (if point then dropWhile is_digit (tl r1) else r1)
      in if ip = [] \<and> fp = [] then None
         else
           (case scan_exponent r2 of
              Some (k, r3) \<Rightarrow>
                Some (PyFloat (of_nat (nat_of_digits (ip @ fp)) / 10 ^ length fp * pow10 k), r3)
            | None \<Rightarrow>
                if point
                then Some (PyFloat (of_nat (nat_of_digits (ip @ fp)) / 10 ^ length fp), r2)
                else if 1 < length ip \<and> hd ip = CHR ''0'' \<and> nat_of_digits ip \<noteq> 0 then None
                else Some (PyInt (int (nat_of_digits ip)), r2)))"

definition operators :: "char list" where
  "operators = ''[]{},:()+-''"

fun cons_token :: "token \<Rightarrow> error + token list \<Rightarrow> error + token list" where
  "cons_token t (Inl e) = Inl e"
| "cons_token t (Inr ts) = Inr (t # ts)"

function tokenize :: "string \<Rightarrow> error + token list" where
  "tokenize [] = Inr []"
| "tokenize (c # cs) =
     (if c = CHR '' '' \<or> c = CHR 0x09 then tokenize cs
      else if is_id_start c then
        cons_token (NAME (c # takeWhile is_id_char cs)) (tokenize (dropWhile is_id_char cs))
      else if is_digit c \<or> is_pointfloat_start (c # cs) then
        (case scan_number (c # cs) of
           None \<Rightarrow> Inl SyntaxError
         | Some (n, rest) \<Rightarrow>
             if length rest \<le> length cs then cons_token (NUMBER n) (tokenize rest)
             else Inl SyntaxError)
      else if c = CHR 0x27 \<or> c = CHR 0x22 then
        (if take 2 cs = [c, c] then Inl SyntaxError
         else
           (case string_body c cs of
              None \<Rightarrow> Inl SyntaxError
            | Some (raw, rest) \<Rightarrow>
                (case unescape raw of
                   Inl e \<Rightarrow> Inl e
                 | Inr s \<Rightarrow>
                     if length rest \<le> length cs then cons_token (STRING s) (tokenize rest)
                     else Inl SyntaxError)))
      else if c \<in> set operators then cons_token (OP c) (tokenize cs)
      else Inl SyntaxError)"
  by pat_completeness auto
termination
  by (relation "measure length") (auto simp: less_Suc_eq_le length_dropWhile_le)

text \<open>Python's keywords, but for \<^verbatim>\<open>None\<close>, \<^verbatim>\<open>True\<close> and \<^verbatim>\<open>False\<close>.\<close>

definition kwlist :: "string list" where
  "kwlist =
     [''and'', ''as'', ''assert'', ''break'', ''class'', ''continue'', ''def'', ''del'',
      ''elif'', ''else'', ''except'', ''finally'', ''for'', ''from'', ''global'', ''if'',
      ''import'', ''in'', ''is'', ''lambda'', ''nonlocal'', ''not'', ''or'', ''pass'',
      ''raise'', ''return'', ''try'', ''while'', ''with'', ''yield'']"

definition name_node :: "string \<Rightarrow> error + expr" where
  "name_node n =
     (if n \<in> set [''None'', ''True'', ''False''] then Inr NameConstant
      else if n \<in> set kwlist then Inl SyntaxError
      else Inr (Name n))"

fun atom_strings :: "token list \<Rightarrow> string \<times> token list" where
  "atom_strings (STRING s # ts) = (case atom_strings ts of (w, r) \<Rightarrow> (s @ w, r))"
| "atom_strings ts = ([], ts)"

text \<open>
  The parser, by recursive descent: \<open>parse_expr\<close> reads one expression, \<open>parse_elts\<close> the
  elements of a list display after its opening bracket, \<open>parse_items\<close> the items of a
  dict display after its opening brace; a comma may follow the last element. Each
  returns what is left of the tokens. The comparisons of lengths before the recursive
  calls always hold (an expression takes at least one token); they are there for the
  termination proof.
\<close>

function parse_expr :: "token list \<Rightarrow> error + expr \<times> token list"
  and parse_elts :: "token list \<Rightarrow> error + expr list \<times> token list"
  and parse_items :: "token list \<Rightarrow> error + (expr list \<times> expr list) \<times> token list"
where
  "parse_expr [] = Inl SyntaxError"
| "parse_expr (NAME n # ts) =
     (case name_node n of Inl e \<Rightarrow> Inl e | Inr x \<Rightarrow> Inr (x, ts))"
| "parse_expr (NUMBER n # ts) = Inr (Num n, ts)"
| "parse_expr (STRING s # ts) =
     (case atom_strings ts of (w, r) \<Rightarrow> Inr (Str (s @ w), r))"
| "parse_expr (OP c # ts) =
     (if c = CHR ''+'' \<or> c = CHR ''-'' then
        (case parse_expr ts of
           Inl e \<Rightarrow> Inl e
         | Inr (x, r) \<Rightarrow> Inr (UnaryOp (if c = CHR ''+'' then UAdd else USub) x, r))
      else if c = CHR ''('' then
        (case parse_expr ts of
           Inl e \<Rightarrow> Inl e
         | Inr (x, r) \<Rightarrow>
             (case r of
                OP d # r' \<Rightarrow> if d = CHR '')'' then Inr (x, r') else Inl SyntaxError
              | _ \<Rightarrow> Inl SyntaxError))
      else if c = CHR ''['' then
        (case ts of
           OP d # r \<Rightarrow>
             if d = CHR '']'' then Inr (List [], r)
             else (case parse_elts ts of Inl e \<Rightarrow> Inl e | Inr (xs, r') \<Rightarrow> Inr (List xs, r'))
         | _ \<Rightarrow> (case parse_elts ts of Inl e \<Rightarrow> Inl e | Inr (xs, r') \<Rightarrow> Inr (List xs, r')))
      else if c = CHR ''{'' then
        (case ts of
           OP d # r \<Rightarrow>
             if d = CHR ''}'' then Inr (Dict [] [], r)
             else (case parse_items ts of
                     Inl e \<Rightarrow> Inl e
                   | Inr ((ks, vs), r') \<Rightarrow> Inr (Dict ks vs, r'))
         | _ \<Rightarrow> (case parse_items ts of
                   Inl e \<Rightarrow> Inl e
                 | Inr ((ks, vs), r') \<Rightarrow> Inr (Dict ks vs, r')))
      else Inl SyntaxError)"
| "parse_elts ts =
     (case parse_expr ts of
        Inl e \<Rightarrow> Inl e
      | Inr (x, r) \<Rightarrow>
          (case r of
             OP d # r' \<Rightarrow>
               if d = CHR '']'' then Inr ([x], r')
               else if d = CHR '','' then
                 (case r' of
                    OP d' # r'' \<Rightarrow>
                      if d' = CHR '']'' then Inr ([x], r'')
                      else if length r' < length ts then
                        (case parse_elts r' of
                           Inl e \<Rightarrow> Inl e
                         | Inr (xs, q) \<Rightarrow> Inr (x # xs, q))
                      else Inl SyntaxError
                  | _ \<Rightarrow>
                      if length r' < length ts then
                        (case parse_elts r' of
                           Inl e \<Rightarrow> Inl e
                         | Inr (xs, q) \<Rightarrow> Inr (x # xs, q))
                      else Inl SyntaxError)
               else Inl SyntaxError
           | _ \<Rightarrow> Inl SyntaxError))"
| "parse_items ts =
     (case parse_expr ts of
        Inl e \<Rightarrow> Inl e
      | Inr (k, r) \<Rightarrow>
          (case r of
             OP d # r1 \<Rightarrow>
               if d = CHR '':'' \<and> length r1 < length ts then
                 (case parse_expr r1 of
                    Inl e \<Rightarrow> Inl e
                  | Inr (v, r2) \<Rightarrow>
                      (case r2 of
                         OP d2 # r3 \<Rightarrow>
                           if d2 = CHR ''}'' then Inr (([k], [v]), r3)
                           else if d2 = CHR '','' then
                             (case r3 of
                                OP d3 # r4 \<Rightarrow>
                                  if d3 = CHR ''}'' then Inr (([k], [v]), r4)
                                  else if length r3 < length ts then
                                    (case parse_items r3 of
                                       Inl e \<Rightarrow> Inl e
                                     | Inr ((ks, vs), q) \<Rightarrow> Inr ((k # ks, v # vs), q))
                                  else Inl SyntaxError
                              | _ \<Rightarrow>
                                  if length r3 < length ts then
                                    (case parse_items r3 of
                                       Inl e \<Rightarrow> Inl e
                                     | Inr ((ks, vs), q) \<Rightarrow> Inr ((k # ks, v # vs), q))
                                  else Inl SyntaxError)
                           else Inl SyntaxError
                       | _ \<Rightarrow> Inl SyntaxError))
               else Inl SyntaxError
           | _ \<Rightarrow> Inl SyntaxError))"
  by pat_completeness auto
termination
  by (relation "measures
        [\<lambda>x. case x of Inl ts \<Rightarrow> length ts | Inr (Inl ts) \<Rightarrow> length ts | Inr (Inr ts) \<Rightarrow> length ts,
         \<lambda>x. case x of Inl ts \<Rightarrow> 0 | Inr (Inl ts) \<Rightarrow> 1 | Inr (Inr ts) \<Rightarrow> 1]") auto

text \<open>
  \<^verbatim>\<open>ast.parse(s, mode='eval')\<close>, the body of the \<^verbatim>\<open>Expression\<close> node it returns. A text
  that starts with a blank is refused (as an unexpected indent), and so is a text with
  tokens left after the expression.
\<close>

definition ast_parse :: "string \<Rightarrow> error + expr" where
  "ast_parse s =
     (case s of
        [] \<Rightarrow> Inl SyntaxError
      | c # _ \<Rightarrow>
          if c = CHR '' '' \<or> c = CHR 0x09 then Inl SyntaxError
          else
            (case tokenize s of
               Inl e \<Rightarrow> Inl e
             | Inr ts \<Rightarrow>
                 (case parse_expr ts of
                    Inl e \<Rightarrow> Inl e
                  | Inr (x, r) \<Rightarrow> if r = [] then Inr x else Inl SyntaxError)))"

subsection \<open>The literal evaluator: \<^verbatim>\<open>JsObjectParser\<close> and \<^verbatim>\<open>js_object_parse\<close>\<close>

text \<open>
  Keys of a dictionary are compared with \<^verbatim>\<open>==\<close>, under which \<^verbatim>\<open>True\<close> is 1, \<^verbatim>\<open>False\<close> is 0
  and an \<^verbatim>\<open>int\<close> equals the \<^verbatim>\<open>float\<close> of the same value. Lists and dictionaries cannot be
  keys: hashing them raises \<^verbatim>\<open>TypeError\<close>.
\<close>

fun hashable :: "val \<Rightarrow> bool" where
  "hashable (PyList xs) = False"
| "hashable (PyDict kvs) = False"
| "hashable v = True"

fun num_val :: "val \<Rightarrow> rat option" where
  "num_val (PyBool b) = Some (if b then 1 else 0)"
| "num_val (PyNum (PyInt i)) = Some (of_int i)"
| "num_val (PyNum (PyFloat q)) = Some q"
| "num_val v = None"

definition py_eq :: "val \<Rightarrow> val \<Rightarrow> bool" where
  "py_eq a b =
     (case num_val a of
        Some x \<Rightarrow> (case num_val b of Some y \<Rightarrow> x = y | None \<Rightarrow> False)
      | None \<Rightarrow> (case num_val b of Some y \<Rightarrow> False | None \<Rightarrow> a = b))"

text \<open>
  \<^verbatim>\<open>d[k] = v\<close> on an \<^verbatim>\<open>OrderedDict\<close>: the value of an equal key is replaced where it
  stands, a new key goes to the end.
\<close>

fun odict_update :: "(val \<times> val) list \<Rightarrow> val \<Rightarrow> val \<Rightarrow> (val \<times> val) list" where
  "odict_update [] k v = [(k, v)]"
| "odict_update ((k', v') # d) k v =
     (if py_eq k' k then (k', v) # d else (k', v') # odict_update d k v)"

definition odict_setitem :: "(val \<times> val) list \<Rightarrow> val \<Rightarrow> val \<Rightarrow> error + (val \<times> val) list" where
  "odict_setitem d k v = (if hashable k then Inr (odict_update d k v) else Inl TypeError)"

text \<open>\<^verbatim>\<open>collections.OrderedDict(pairs)\<close>, added to the dictionary \<open>d\<close>.\<close>

fun ordered_dict :: "(val \<times> val) list \<Rightarrow> (val \<times> val) list \<Rightarrow> error + (val \<times> val) list" where
  "ordered_dict d [] = Inr d"
| "ordered_dict d ((k, v) # kvs) =
     (case odict_setitem d k v of Inl e \<Rightarrow> Inl e | Inr d' \<Rightarrow> ordered_dict d' kvs)"

definition js_constants :: "(string \<times> val) list" where
  "js_constants = [(''null'', PyNone), (''false'', PyBool False), (''true'', PyBool True)]"

text \<open>
  The visitor. \<open>visit_elts\<close> is the list comprehension of \<^verbatim>\<open>visit_List\<close> and \<open>visit_pairs\<close>
  the one of \<^verbatim>\<open>visit_Dict\<close>, over \<^verbatim>\<open>zip(node.keys, node.values)\<close>: each key is visited
  before its value. A node without a \<^verbatim>\<open>visit_\<close> method goes to \<^verbatim>\<open>generic_visit\<close>, which
  raises \<^verbatim>\<open>ValueError\<close>.
\<close>

function visit :: "expr \<Rightarrow> error + val"
  and visit_elts :: "expr list \<Rightarrow> error + val list"
  and visit_pairs :: "expr list \<Rightarrow> expr list \<Rightarrow> error + (val \<times> val) list"
where
  "visit (Name ident) =
     (case map_of js_constants ident of None \<Rightarrow> Inl (KeyError ident) | Some v \<Rightarrow> Inr v)"
| "visit (Num n) = Inr (PyNum n)"
| "visit (Str s) = Inr (PyStr s)"
| "visit (List elts) =
     (case visit_elts elts of Inl e \<Rightarrow> Inl e | Inr vs \<Rightarrow> Inr (PyList vs))"
| "visit (Dict keys vals) =
     (case visit_pairs keys vals of
        Inl e \<Rightarrow> Inl e
      | Inr kvs \<Rightarrow> (case ordered_dict [] kvs of Inl e \<Rightarrow> Inl e | Inr d \<Rightarrow> Inr (PyDict d)))"
| "visit NameConstant = Inl (ValueError UnhandledNodeType)"
| "visit (UnaryOp op operand) = Inl (ValueError UnhandledNodeType)"
| "visit_elts [] = Inr []"
| "visit_elts (x # xs) =
     (case visit x of
        Inl e \<Rightarrow> Inl e
      | Inr v \<Rightarrow> (case visit_elts xs of Inl e \<Rightarrow> Inl e | Inr vs \<Rightarrow> Inr (v # vs)))"
| "visit_pairs [] vals = Inr []"
| "visit_pairs (k # ks) [] = Inr []"
| "visit_pairs (k # ks) (v # vs) =
     (case visit k of
        Inl e \<Rightarrow> Inl e
      | Inr k' \<Rightarrow>
          (case visit v of
             Inl e \<Rightarrow> Inl e
           | Inr v' \<Rightarrow>
               (case visit_pairs ks vs of Inl e \<Rightarrow> Inl e | Inr kvs \<Rightarrow> Inr ((k', v') # kvs))))"
  by pat_completeness auto
termination
  by (relation "measure (\<lambda>x. case x of
          Inl e \<Rightarrow> size e
        | Inr (Inl xs) \<Rightarrow> size_list size xs
        | Inr (Inr (ks, vs)) \<Rightarrow> size_list size ks + size_list size vs)") auto

definition js_object_parse :: "string \<Rightarrow> error + val" where
  "js_object_parse s = (case ast_parse s of Inl e \<Rightarrow> Inl e | Inr node \<Rightarrow> visit node)"

subsection \<open>The statement patterns of \<^verbatim>\<open>parse_js\<close>\<close>

definition lit :: "string \<Rightarrow> regex" where
  "lit s = foldr (\<lambda>c r. Seq (Chr c) r) s Empty"

definition cat :: "regex list \<Rightarrow> regex" where
  "cat rs = foldr Seq rs Empty"

text \<open>\<^verbatim>\<open>r?\<close>\<close>

definition opt :: "regex \<Rightarrow> regex" where
  "opt r = Alt r Empty"

text \<open>\<^verbatim>\<open>\d+\<close>\<close>

definition rx_digits :: regex where
  "rx_digits = Seq (OneOf [(CHR ''0'', CHR ''9'')]) (Star (OneOf [(CHR ''0'', CHR ''9'')]))"

text \<open>\<^verbatim>\<open>id = r'[a-zA-Z_][a-zA-Z0-9_]*'\<close>\<close>

definition rx_id :: regex where
  "rx_id =
     Seq (OneOf [(CHR ''a'', CHR ''z''), (CHR ''A'', CHR ''Z''), (CHR ''_'', CHR ''_'')])
         (Star (OneOf [(CHR ''a'', CHR ''z''), (CHR ''A'', CHR ''Z''), (CHR ''0'', CHR ''9''),
                       (CHR ''_'', CHR ''_'')]))"

text \<open>\<^verbatim>\<open>obj = r'(?:[^;\'"]|\'(?:[^\\\']|\\.)*\'|"(?:[^\\"]|\\.)*")*'\<close>\<close>

definition rx_quoted :: "char \<Rightarrow> regex" where
  "rx_quoted q =
     Seq (Chr q)
         (Seq (Star (Alt (NoneOf [(CHR 0x5C, CHR 0x5C), (q, q)]) (Seq (Chr (CHR 0x5C)) Dot)))
              (Chr q))"

definition rx_obj :: regex where
  "rx_obj =
     Star (Alt (NoneOf [(CHR '';'', CHR '';''), (CHR 0x27, CHR 0x27), (CHR 0x22, CHR 0x22)])
               (Alt (rx_quoted (CHR 0x27)) (rx_quoted (CHR 0x22))))"

text \<open>\<^verbatim>\<open>kv = '(?:' + obj + '):(?:' + id + ')'\<close>\<close>

definition rx_kv :: regex where
  "rx_kv = cat [rx_obj, Chr (CHR '':''), rx_id]"

definition patterns :: "(string \<times> regex) list" where
  "patterns =
     [(''throw'', cat [lit ''throw '', rx_obj, lit '';'']),
      (''comment'', cat [lit ''//'', Group 0 (Star Dot)]),
      (''var'', cat [lit ''var '', Group 0 rx_id, lit ''='', Group 0 rx_obj, lit '';'']),
      (''setattr'',
         cat [Group 0 rx_id, lit ''.'', Group 0 rx_id, lit ''='', Group 0 rx_obj, lit '';'']),
      (''setitem'',
         cat [Group 0 rx_id, lit ''['', Group 0 rx_obj, lit '']='', Group 0 rx_obj, lit '';'']),
      (''call'',
         cat [lit ''dwr.engine._remoteHandleCallback('',
              Chr (CHR 0x27), Group 0 rx_digits, Chr (CHR 0x27), lit '','',
              Chr (CHR 0x27), Group 0 rx_digits, Chr (CHR 0x27), lit '',['',
              Group 0 (opt (cat [rx_id, Star (cat [lit '','', rx_id])])),
              lit '']);'']),
      (''calldict'',
         cat [lit ''dwr.engine._remoteHandleCallback('',
              Chr (CHR 0x27), Group 0 rx_digits, Chr (CHR 0x27), lit '','',
              Chr (CHR 0x27), Group 0 rx_digits, Chr (CHR 0x27), lit '',{'',
              Group 0 (opt (cat [rx_kv, Star (cat [lit '','', rx_kv])])),
              lit ''});'']),
      (''exception'',
         cat [lit ''dwr.engine._remoteHandleException('',
              Chr (CHR 0x27), Group 0 rx_digits, Chr (CHR 0x27), lit '','',
              Chr (CHR 0x27), Group 0 rx_digits, Chr (CHR 0x27), lit '',{javaClassName:'',
              Group 0 rx_obj, lit '',message:'', Group 0 rx_obj, lit ''});''])]"

text \<open>
  \<^verbatim>\<open>'|'.join('(?P<%s>%s)' % (k, v) for k, v in patterns)\<close>: every pattern becomes a named
  group, numbered before the groups inside it, and the named groups are the alternatives
  of the whole pattern, in the order of the list.
\<close>

fun named_groups :: "nat \<Rightarrow> (string \<times> regex) list \<Rightarrow> regex list \<times> (nat \<times> string) list \<times> nat" where
  "named_groups n [] = ([], [], n)"
| "named_groups n ((k, v) # ps) =
     (case number_groups (Suc n) v of (n1, v') \<Rightarrow>
        (case named_groups n1 ps of (rs, names, n2) \<Rightarrow>
           (Group n v' # rs, (n, k) # names, n2)))"

fun alternatives :: "regex list \<Rightarrow> regex" where
  "alternatives [] = Empty"
| "alternatives [r] = r"
| "alternatives (r # rs) = Alt r (alternatives rs)"

definition pattern :: re_pattern where
  "pattern =
     (case named_groups 1 patterns of (rs, names, n) \<Rightarrow>
        \<lparr>rx = alternatives rs, ngroups = n - 1, groupnames = names\<rparr>)"

subsection \<open>The execution of the statements\<close>

text \<open>
  Lists and dictionaries are objects: a call statement stores references to the objects
  of the variables it names, and an assignment after the call changes what the caller of
  \<^verbatim>\<open>parse_js\<close> sees in the result. The state therefore holds a heap of the objects made by
  the variable declarations (an address is an index into it); \<^verbatim>\<open>locals\<close> maps a name to
  an address, and the data of a call holds addresses. The values inside an object are
  never shared, so they are plain values.
\<close>

datatype entry = Ref nat | KeyRef val nat

record state =
  heap :: "val list"
  locals :: "string \<rightharpoonup> nat"
  results :: "(int \<times> int \<times> entry list) list"
  exceptions :: "(int \<times> int \<times> val \<times> val) list"

definition initial_state :: state where
  "initial_state = \<lparr>heap = [], locals = Map.empty, results = [], exceptions = []\<rparr>"

text \<open>\<^verbatim>\<open>locals[name]\<close>\<close>

definition lookup :: "state \<Rightarrow> string \<Rightarrow> error + nat" where
  "lookup st name = (case locals st name of None \<Rightarrow> Inl (KeyError name) | Some a \<Rightarrow> Inr a)"

text \<open>
  What Python accepts as a list index or a repetition count: an \<^verbatim>\<open>int\<close>, or a \<^verbatim>\<open>bool\<close>
  as 0 or 1.
\<close>

fun py_index :: "val \<Rightarrow> int option" where
  "py_index (PyNum (PyInt i)) = Some i"
| "py_index (PyBool b) = Some (if b then 1 else 0)"
| "py_index v = None"

text \<open>\<^verbatim>\<open>xs[key] = value\<close> on a list: a negative index counts from the end.\<close>

definition list_setitem :: "val list \<Rightarrow> val \<Rightarrow> val \<Rightarrow> error + val list" where
  "list_setitem xs key v =
     (case py_index key of
        None \<Rightarrow> Inl TypeError
      | Some i \<Rightarrow>
          (let n = int (length xs); j = (if i < 0 then n + i else i)
           in if 0 \<le> j \<and> j < n then Inr (xs[nat j := v]) else Inl IndexError))"

text \<open>\<^verbatim>\<open>obj[key] = value\<close>: the object after the assignment.\<close>

fun py_setitem :: "val \<Rightarrow> val \<Rightarrow> val \<Rightarrow> error + val" where
  "py_setitem (PyList xs) key v =
     (case list_setitem xs key v of Inl e \<Rightarrow> Inl e | Inr xs' \<Rightarrow> Inr (PyList xs'))"
| "py_setitem (PyDict d) key v =
     (case odict_setitem d key v of Inl e \<Rightarrow> Inl e | Inr d' \<Rightarrow> Inr (PyDict d'))"
| "py_setitem obj key v = Inl TypeError"

text \<open>\<^verbatim>\<open>n <= key\<close> for an \<^verbatim>\<open>int\<close> \<open>n\<close>: only numbers are ordered against an \<^verbatim>\<open>int\<close>.\<close>

definition int_le :: "int \<Rightarrow> val \<Rightarrow> error + bool" where
  "int_le n key = (case num_val key of None \<Rightarrow> Inl TypeError | Some q \<Rightarrow> Inr (of_int n \<le> q))"

text \<open>
  The two branches of the \<^verbatim>\<open>setitem\<close> statement (lines 194 to 199): a list that is not
  longer than the key is filled with \<^verbatim>\<open>None\<close> up to the key and the value is appended;
  otherwise the value is assigned at the key.
\<close>

definition set_index :: "val \<Rightarrow> val \<Rightarrow> val \<Rightarrow> error + val" where
  "set_index obj key v =
     (case obj of
        PyList xs \<Rightarrow>
          (case int_le (int (length xs)) key of
             Inl e \<Rightarrow> Inl e
           | Inr le \<Rightarrow>
               if le then
                 (case py_index key of
                    None \<Rightarrow> Inl TypeError
                  | Some k \<Rightarrow>
                      Inr (PyList ((xs @ replicate (nat (k - int (length xs))) PyNone) @ [v])))
               else py_setitem obj key v)
      | _ \<Rightarrow> py_setitem obj key v)"

definition exec_var :: "state \<Rightarrow> string \<Rightarrow> string \<Rightarrow> error + state" where
  "exec_var st name text =
     (case js_object_parse text of
        Inl e \<Rightarrow> Inl e
      | Inr v \<Rightarrow>
          Inr (st\<lparr>heap := heap st @ [v], locals := (locals st)(name \<mapsto> length (heap st))\<rparr>))"

definition exec_setattr :: "state \<Rightarrow> string \<Rightarrow> string \<Rightarrow> string \<Rightarrow> error + state" where
  "exec_setattr st name key text =
     (case js_object_parse text of
        Inl e \<Rightarrow> Inl e
      | Inr v \<Rightarrow>
          (case lookup st name of
             Inl e \<Rightarrow> Inl e
           | Inr a \<Rightarrow>
               (case py_setitem (heap st ! a) (PyStr key) v of
                  Inl e \<Rightarrow> Inl e
                | Inr obj \<Rightarrow> Inr (st\<lparr>heap := (heap st)[a := obj]\<rparr>))))"

definition exec_setitem :: "state \<Rightarrow> string \<Rightarrow> string \<Rightarrow> string \<Rightarrow> error + state" where
  "exec_setitem st name key_text text =
     (case js_object_parse key_text of
        Inl e \<Rightarrow> Inl e
      | Inr key \<Rightarrow>
          (case js_object_parse text of
             Inl e \<Rightarrow> Inl e
           | Inr v \<Rightarrow>
               (case lookup st name of
                  Inl e \<Rightarrow> Inl e
                | Inr a \<Rightarrow>
                    (case set_index (heap st ! a) key v of
                       Inl e \<Rightarrow> Inl e
                     | Inr obj \<Rightarrow> Inr (st\<lparr>heap := (heap st)[a := obj]\<rparr>)))))"

text \<open>\<^verbatim>\<open>[locals[n] for n in names]\<close>\<close>

fun lookup_all :: "state \<Rightarrow> string list \<Rightarrow> error + entry list" where
  "lookup_all st [] = Inr []"
| "lookup_all st (n # ns) =
     (case lookup st n of
        Inl e \<Rightarrow> Inl e
      | Inr a \<Rightarrow> (case lookup_all st ns of Inl e \<Rightarrow> Inl e | Inr es \<Rightarrow> Inr (Ref a # es)))"

definition exec_call :: "state \<Rightarrow> string \<Rightarrow> string \<Rightarrow> string \<Rightarrow> error + state" where
  "exec_call st b c names =
     (case py_int b of
        Inl e \<Rightarrow> Inl e
      | Inr batch_id \<Rightarrow>
          (case py_int c of
             Inl e \<Rightarrow> Inl e
           | Inr call_id \<Rightarrow>
               (case (if names \<noteq> [] then lookup_all st (split (CHR '','') names) else Inr []) of
                  Inl e \<Rightarrow> Inl e
                | Inr data \<Rightarrow> Inr (st\<lparr>results := results st @ [(batch_id, call_id, data)]\<rparr>))))"

text \<open>
  The loop over \<^verbatim>\<open>groups[3].split(',')\<close> of the \<^verbatim>\<open>calldict\<close> statement: each part must
  split at colons into exactly two, the key text and the name; the key is evaluated
  before the name is looked up.
\<close>

fun keyed_entries :: "state \<Rightarrow> string list \<Rightarrow> error + entry list" where
  "keyed_entries st [] = Inr []"
| "keyed_entries st (kv_string # rest) =
     (case split (CHR '':'') kv_string of
        [k, v] \<Rightarrow>
          (case js_object_parse k of
             Inl e \<Rightarrow> Inl e
           | Inr key \<Rightarrow>
               (case lookup st v of
                  Inl e \<Rightarrow> Inl e
                | Inr a \<Rightarrow>
                    (case keyed_entries st rest of
                       Inl e \<Rightarrow> Inl e
                     | Inr es \<Rightarrow> Inr (KeyRef key a # es))))
      | _ \<Rightarrow> Inl (ValueError Unpack))"

definition exec_calldict :: "state \<Rightarrow> string \<Rightarrow> string \<Rightarrow> string \<Rightarrow> error + state" where
  "exec_calldict st b c body =
     (case py_int b of
        Inl e \<Rightarrow> Inl e
      | Inr batch_id \<Rightarrow>
          (case py_int c of
             Inl e \<Rightarrow> Inl e
           | Inr call_id \<Rightarrow>
               (case (if body \<noteq> [] then keyed_entries st (split (CHR '','') body) else Inr []) of
                  Inl e \<Rightarrow> Inl e
                | Inr data \<Rightarrow> Inr (st\<lparr>results := results st @ [(batch_id, call_id, data)]\<rparr>))))"

definition exec_exception :: "state \<Rightarrow> string \<Rightarrow> string \<Rightarrow> string \<Rightarrow> string \<Rightarrow> error + state" where
  "exec_exception st b c cls msg =
     (case py_int b of
        Inl e \<Rightarrow> Inl e
      | Inr batch_id \<Rightarrow>
          (case py_int c of
             Inl e \<Rightarrow> Inl e
           | Inr call_id \<Rightarrow>
               (case js_object_parse cls of
                  Inl e \<Rightarrow> Inl e
                | Inr class_name \<Rightarrow>
                    (case js_object_parse msg of
                       Inl e \<Rightarrow> Inl e
                     | Inr message \<Rightarrow>
                         Inr (st\<lparr>exceptions :=
                                  exceptions st @ [(batch_id, call_id, class_name, message)]\<rparr>)))))"

text \<open>
  \<^verbatim>\<open>groups[k]\<close>. A group of the matched alternative always has a text; for a group that
  is \<^verbatim>\<open>None\<close> or an index out of range Python would raise where the text is used.
\<close>

definition group_at :: "string option list \<Rightarrow> nat \<Rightarrow> error + string" where
  "group_at gs k =
     (if k < length gs then (case gs ! k of None \<Rightarrow> Inl TypeError | Some s \<Rightarrow> Inr s)
      else Inl IndexError)"

definition args2 :: "string option list \<Rightarrow> (string \<Rightarrow> string \<Rightarrow> error + state) \<Rightarrow> error + state" where
  "args2 gs f =
     (case group_at gs 1 of
        Inl e \<Rightarrow> Inl e
      | Inr a \<Rightarrow> (case group_at gs 2 of Inl e \<Rightarrow> Inl e | Inr b \<Rightarrow> f a b))"

definition args3 ::
  "string option list \<Rightarrow> (string \<Rightarrow> string \<Rightarrow> string \<Rightarrow> error + state) \<Rightarrow> error + state" where
  "args3 gs f =
     (case group_at gs 1 of
        Inl e \<Rightarrow> Inl e
      | Inr a \<Rightarrow>
          (case group_at gs 2 of
             Inl e \<Rightarrow> Inl e
           | Inr b \<Rightarrow> (case group_at gs 3 of Inl e \<Rightarrow> Inl e | Inr c \<Rightarrow> f a b c)))"

definition args4 ::
  "string option list \<Rightarrow> (string \<Rightarrow> string \<Rightarrow> string \<Rightarrow> string \<Rightarrow> error + state)
     \<Rightarrow> error + state" where
  "args4 gs f =
     (case group_at gs 1 of
        Inl e \<Rightarrow> Inl e
      | Inr a \<Rightarrow>
          (case group_at gs 2 of
             Inl e \<Rightarrow> Inl e
           | Inr b \<Rightarrow>
               (case group_at gs 3 of
                  Inl e \<Rightarrow> Inl e
                | Inr c \<Rightarrow> (case group_at gs 4 of Inl e \<Rightarrow> Inl e | Inr d \<Rightarrow> f a b c d))))"

text \<open>
  The body of the loop after the check of the skipped text: \<^verbatim>\<open>key = mo.lastgroup\<close>,
  \<^verbatim>\<open>groups = mo.groups()[mo.lastindex - 1:]\<close> and the chain of \<^verbatim>\<open>if\<close> and \<^verbatim>\<open>elif\<close>.
\<close>

definition exec_match :: "state \<Rightarrow> match_obj \<Rightarrow> error + state" where
  "exec_match st mo =
     (case lastindex mo of
        None \<Rightarrow> Inl TypeError
      | Some li \<Rightarrow>
          (let key = lastgroup mo; gs = drop (li - 1) (groups mo)
           in if key = Some ''throw'' then Inr st
              else if key = Some ''comment'' then Inr st
              else if key = Some ''var'' then args2 gs (exec_var st)
              else if key = Some ''setattr'' then args3 gs (exec_setattr st)
              else if key = Some ''setitem'' then args3 gs (exec_setitem st)
              else if key = Some ''call'' then args3 gs (exec_call st)
              else if key = Some ''calldict'' then args3 gs (exec_calldict st)
              else if key = Some ''exception'' then args4 gs (exec_exception st)
              else Inr st))"

subsection \<open>\<^verbatim>\<open>parse_js\<close>\<close>

text \<open>
  The \<^verbatim>\<open>for\<close> loop over the matches: \<open>i\<close> is the end of the previous match. The text
  between two matches must be whitespace; then the statement is executed.
\<close>

fun scan :: "string \<Rightarrow> nat \<Rightarrow> state \<Rightarrow> match_obj list \<Rightarrow> error + nat \<times> state" where
  "scan code i st [] = Inr (i, st)"
| "scan code i st (mo # mos) =
     (let skipped = slice code i (mstart mo)
      in if strip skipped \<noteq> [] then Inl (ValueError (DidNotParse (strip skipped)))
         else (case exec_match st mo of
                 Inl e \<Rightarrow> Inl e
               | Inr st' \<Rightarrow> scan code (mend mo) st' mos))"

text \<open>
  What the caller sees of the data of a call: the objects behind the references, as they
  are when \<^verbatim>\<open>parse_js\<close> returns. An entry of a keyed call is a tuple of key and object.
\<close>

datatype item = Item val | KeyItem val val

fun deref :: "val list \<Rightarrow> entry \<Rightarrow> item" where
  "deref h (Ref a) = Item (h ! a)"
| "deref h (KeyRef k a) = KeyItem k (h ! a)"

text \<open>\<^verbatim>\<open>{call_id: data for batch_id, call_id, data in results}\<close>, added to \<open>m\<close>.\<close>

fun result_dict ::
  "val list \<Rightarrow> (int \<rightharpoonup> item list) \<Rightarrow> (int \<times> int \<times> entry list) list \<Rightarrow> (int \<rightharpoonup> item list)" where
  "result_dict h m [] = m"
| "result_dict h m ((batch_id, call_id, data) # rs) =
     result_dict h (m(call_id \<mapsto> map (deref h) data)) rs"

text \<open>
  \<^verbatim>\<open>parse_js\<close> up to its last line: the scan, the check of the text after the last match
  and the check of the exceptions. It yields the heap and the results.
\<close>

definition decode :: "string \<Rightarrow> error + val list \<times> (int \<times> int \<times> entry list) list" where
  "decode code =
     (case scan code 0 initial_state (finditer pattern code) of
        Inl e \<Rightarrow> Inl e
      | Inr (i, st) \<Rightarrow>
          (let skipped = drop i code
           in if strip skipped \<noteq> [] then Inl (ValueError (DidNotParse (strip skipped)))
              else if exceptions st \<noteq> [] then
                Inl (ValueError (DWRReturnedExceptions (exceptions st)))
              else Inr (heap st, results st)))"

definition parse_js :: "string \<Rightarrow> error + (int \<rightharpoonup> item list)" where
  "parse_js code =
     (case decode code of
        Inl e \<Rightarrow> Inl e
      | Inr (h, rs) \<Rightarrow> Inr (result_dict h Map.empty rs))"

subsection \<open>Notions used in the statements\<close>

text \<open>\<^verbatim>\<open>groups[k]\<close> for the \<^verbatim>\<open>groups\<close> of the loop body, as \<open>exec_match\<close> computes it.\<close>

definition stmt_group :: "match_obj \<Rightarrow> nat \<Rightarrow> error + string" where
  "stmt_group mo k =
     (case lastindex mo of
        None \<Rightarrow> Inl TypeError
      | Some li \<Rightarrow> group_at (drop (li - 1) (groups mo)) k)"

text \<open>
  The record of an exception statement: batch id, call id, class name and message, read
  from the four groups of the statement.
\<close>

fun exception_record :: "match_obj \<Rightarrow> int \<times> int \<times> val \<times> val \<Rightarrow> bool" where
  "exception_record mo (b, c, cn, m) =
     (case (stmt_group mo 1, stmt_group mo 2, stmt_group mo 3, stmt_group mo 4) of
        (Inr tb, Inr tc, Inr tcn, Inr tm) \<Rightarrow>
          py_int tb = Inr b \<and> py_int tc = Inr c
          \<and> js_object_parse tcn = Inr cn \<and> js_object_parse tm = Inr m
      | _ \<Rightarrow> False)"

text \<open>
  The result of a call statement, positional or keyed: batch id and call id are read from
  the first two groups, and the data is what the execution of the statement appends to
  the results.
\<close>

definition is_call :: "match_obj \<Rightarrow> bool" where
  "is_call mo = (lastgroup mo = Some ''call'' \<or> lastgroup mo = Some ''calldict'')"

fun call_result :: "match_obj \<Rightarrow> int \<times> int \<times> entry list \<Rightarrow> bool" where
  "call_result mo (b, c, d) =
     ((case (stmt_group mo 1, stmt_group mo 2) of
         (Inr tb, Inr tc) \<Rightarrow> py_int tb = Inr b \<and> py_int tc = Inr c
       | _ \<Rightarrow> False)
      \<and> (\<exists>s s'. exec_match s mo = Inr s' \<and> results s' = results s @ [(b, c, d)]))"

text \<open>The data of the results with the call id \<open>c\<close>, in the order of the results.\<close>

definition data_for :: "int \<Rightarrow> (int \<times> int \<times> entry list) list \<Rightarrow> entry list list" where
  "data_for c rs = map (\<lambda>r. snd (snd r)) (filter (\<lambda>r. fst (snd r) = c) rs)"

text \<open>A variable declaration of the name \<open>n\<close>.\<close>

definition declares :: "match_obj \<Rightarrow> string \<Rightarrow> bool" where
  "declares mo n = (lastgroup mo = Some ''var'' \<and> stmt_group mo 1 = Inr n)"

text \<open>
  Statements that refer to the name \<open>n\<close> and whose other parts are in order: a field
  assignment to \<open>n\<close> whose value text evaluates; an index assignment to \<open>n\<close> whose key text
  and value text evaluate; a positional call with integer ids that names \<open>n\<close>; a keyed
  call with integer ids, each of whose entries has one colon and a key text that
  evaluates, and one of whose entries names \<open>n\<close>.
\<close>

definition evaluates :: "error + string \<Rightarrow> bool" where
  "evaluates t = (case t of Inl e \<Rightarrow> False | Inr text \<Rightarrow> \<not> isl (js_object_parse text))"

definition integer_ids :: "match_obj \<Rightarrow> bool" where
  "integer_ids mo =
     ((case stmt_group mo 1 of Inl e \<Rightarrow> False | Inr t \<Rightarrow> \<not> isl (py_int t))
      \<and> (case stmt_group mo 2 of Inl e \<Rightarrow> False | Inr t \<Rightarrow> \<not> isl (py_int t)))"

definition setattr_on :: "match_obj \<Rightarrow> string \<Rightarrow> bool" where
  "setattr_on mo n =
     (lastgroup mo = Some ''setattr'' \<and> stmt_group mo 1 = Inr n \<and> \<not> isl (stmt_group mo 2)
      \<and> evaluates (stmt_group mo 3))"

definition setitem_on :: "match_obj \<Rightarrow> string \<Rightarrow> bool" where
  "setitem_on mo n =
     (lastgroup mo = Some ''setitem'' \<and> stmt_group mo 1 = Inr n
      \<and> evaluates (stmt_group mo 2) \<and> evaluates (stmt_group mo 3))"

definition call_naming :: "match_obj \<Rightarrow> string \<Rightarrow> bool" where
  "call_naming mo n =
     (lastgroup mo = Some ''call'' \<and> integer_ids mo
      \<and> (case stmt_group mo 3 of
            Inl e \<Rightarrow> False
          | Inr names \<Rightarrow> names \<noteq> [] \<and> n \<in> set (split (CHR '','') names)))"

definition entry_in_order :: "string \<Rightarrow> bool" where
  "entry_in_order p =
     (case split (CHR '':'') p of [k, v] \<Rightarrow> \<not> isl (js_object_parse k) | _ \<Rightarrow> False)"

definition entry_names :: "string \<Rightarrow> string \<Rightarrow> bool" where
  "entry_names n p = (case split (CHR '':'') p of [k, v] \<Rightarrow> v = n | _ \<Rightarrow> False)"

definition calldict_naming :: "match_obj \<Rightarrow> string \<Rightarrow> bool" where
  "calldict_naming mo n =
     (lastgroup mo = Some ''calldict'' \<and> integer_ids mo
      \<and> (case stmt_group mo 3 of
            Inl e \<Rightarrow> False
          | Inr body \<Rightarrow>
              body \<noteq> [] \<and> list_all entry_in_order (split (CHR '','') body)
              \<and> list_ex (entry_names n) (split (CHR '','') body)))"

text \<open>
  A quoted string as the pattern \<^verbatim>\<open>obj\<close> reads it: a quote, then characters other than the
  quote and the backslash, or a backslash with the character after it (no newline), then
  the same quote.
\<close>

fun quoted_body :: "char \<Rightarrow> string \<Rightarrow> bool" where
  "quoted_body q [] = True"
| "quoted_body q [c] = (c \<noteq> CHR 0x5C \<and> c \<noteq> q)"
| "quoted_body q (c # d # cs) =
     (if c = CHR 0x5C then d \<noteq> CHR 0x0A \<and> quoted_body q cs
      else c \<noteq> q \<and> quoted_body q (d # cs))"

definition quoted_string :: "string \<Rightarrow> bool" where
  "quoted_string k =
     (case k of
        [] \<Rightarrow> False
      | q # r \<Rightarrow>
          (q = CHR 0x27 \<or> q = CHR 0x22) \<and> r \<noteq> [] \<and> last r = q \<and> quoted_body q (butlast r))"

section \<open>Properties\<close>

subsection \<open>Statements that only read the environment\<close>

lemma exec_call_env:
  "exec_call st b c names = Inr st' \<Longrightarrow> locals st' = locals st \<and> heap st' = heap st"
  by (auto simp: exec_call_def split: sum.splits)

lemma exec_calldict_env:
  "exec_calldict st b c body = Inr st' \<Longrightarrow> locals st' = locals st \<and> heap st' = heap st"
  by (auto simp: exec_calldict_def split: sum.splits)

lemma exec_exception_env:
  "exec_exception st b c cls msg = Inr st' \<Longrightarrow> locals st' = locals st \<and> heap st' = heap st"
  by (auto simp: exec_exception_def split: sum.splits)

lemma exec_terminal_env:
  assumes "exec_match st mo = Inr st'"
    and "lastgroup mo = Some ''call'' \<or> lastgroup mo = Some ''calldict''
         \<or> lastgroup mo = Some ''exception''"
  shows "locals st' = locals st \<and> heap st' = heap st"
  using assms
  by (auto simp: exec_match_def args3_def args4_def Let_def
           split: option.splits sum.splits
           dest: exec_call_env exec_calldict_env exec_exception_env)

text \<open>
  C8. A positional call, a keyed call and an exception statement leave the environment as
  it was: after the statement every name is bound to the object it was bound to before,
  and no object has changed.
\<close>

theorem terminal_statements_keep_environment:
  assumes "exec_match st mo = Inr st'"
    and "lastgroup mo = Some ''call'' \<or> lastgroup mo = Some ''calldict''
         \<or> lastgroup mo = Some ''exception''"
  shows "locals st' = locals st \<and> heap st' = heap st"
  using assms by (rule exec_terminal_env)

theorem terminal_statements_keep_environment_witness:
  \<open>\<exists>mo st'. mo = hd (finditer pattern ''dwr.engine._remoteHandleCallback('16','1234',[s]);'')
     \<and> lastgroup mo = Some ''call''
     \<and> exec_match \<lparr>heap = [PyList []], locals = [''s'' \<mapsto> 0], results = [], exceptions = []\<rparr> mo
         = Inr st'
     \<and> locals st' = [''s'' \<mapsto> 0] \<and> heap st' = [PyList []]\<close>
proof -
  let ?st = "\<lparr>heap = [PyList []], locals = [''s'' \<mapsto> 0::nat], results = [], exceptions = []\<rparr>"
  let ?mo = \<open>hd (finditer pattern ''dwr.engine._remoteHandleCallback('16','1234',[s]);'')\<close>
  have l: "lastgroup ?mo = Some ''call''"
    by code_simp
  have "\<not> isl (exec_match ?st ?mo)"
    by code_simp
  then obtain st' where e: "exec_match ?st ?mo = Inr st'"
    by (cases "exec_match ?st ?mo") auto
  from terminal_statements_keep_environment [OF e] l e show ?thesis
    by auto
qed

subsection \<open>The examples of the documentation\<close>

lemma decode_keyed_call:
  \<open>decode ''\<newline>throw 'allowScriptTagRemoting is false.';\<newline>//#DWR-INSERT\<newline>//#DWR-REPLY\<newline>var s3=[];s3[0]=1234;s3[1]=2345;\<newline>dwr.engine._remoteHandleCallback('16','1234',{'42':s3});\<newline>''
   = Inr ([PyList [PyNum (PyInt 1234), PyNum (PyInt 2345)]],
          [(16, 1234, [KeyRef (PyStr ''42'') 0])])\<close>
  by code_simp

text \<open>
  C7. The reply made of the preamble, the declaration of the empty array \<^verbatim>\<open>s3\<close>, the
  assignments \<^verbatim>\<open>s3[0]=1234\<close> and \<^verbatim>\<open>s3[1]=2345\<close> and a keyed call with call id 1234
  whose one entry has the key \<^verbatim>\<open>'42'\<close> and the variable \<^verbatim>\<open>s3\<close> decodes to the dictionary
  \<^verbatim>\<open>{1234: [('42', [1234, 2345])]}\<close>.
\<close>

theorem parse_js_keyed_call:
  \<open>parse_js ''\<newline>throw 'allowScriptTagRemoting is false.';\<newline>//#DWR-INSERT\<newline>//#DWR-REPLY\<newline>var s3=[];s3[0]=1234;s3[1]=2345;\<newline>dwr.engine._remoteHandleCallback('16','1234',{'42':s3});\<newline>''
   = Inr [1234 \<mapsto> [KeyItem (PyStr ''42'') (PyList [PyNum (PyInt 1234), PyNum (PyInt 2345)])]]\<close>
  by (simp add: parse_js_def decode_keyed_call)

subsection \<open>Index assignment\<close>

lemma int_le_int: "int_le n (PyNum (PyInt i)) = Inr (n \<le> i)"
  by (simp add: int_le_def)

lemma set_index_list_pad:
  "int (length xs) \<le> idx \<Longrightarrow>
   set_index (PyList xs) (PyNum (PyInt idx)) v
     = Inr (PyList (xs @ replicate (nat idx - length xs) PyNone @ [v]))"
  by (simp add: set_index_def int_le_int nat_diff_distrib')

lemma set_index_list_overwrite:
  "idx < int (length xs) \<Longrightarrow>
   set_index (PyList xs) (PyNum (PyInt idx)) v = py_setitem (PyList xs) (PyNum (PyInt idx)) v"
  by (simp add: set_index_def int_le_int)

lemma py_setitem_list_in_range:
  "0 \<le> idx \<Longrightarrow> idx < int (length xs) \<Longrightarrow>
   py_setitem (PyList xs) (PyNum (PyInt idx)) v = Inr (PyList (xs[nat idx := v]))"
  by (simp add: list_setitem_def)

lemma set_index_dict:
  "set_index (PyDict d) key v = py_setitem (PyDict d) key v"
  by (simp add: set_index_def)

lemma py_setitem_dict:
  "hashable key \<Longrightarrow> py_setitem (PyDict d) key v = Inr (PyDict (odict_update d key v))"
  by (simp add: odict_setitem_def)

lemma exec_setitem_eq:
  assumes "js_object_parse key_text = Inr key" and "js_object_parse text = Inr v"
    and "locals st name = Some a"
  shows "exec_setitem st name key_text text =
           (case set_index (heap st ! a) key v of
              Inl e \<Rightarrow> Inl e
            | Inr obj \<Rightarrow> Inr (st\<lparr>heap := (heap st)[a := obj]\<rparr>))"
  using assms by (simp add: exec_setitem_def lookup_def)

lemma decode_sparse_array:
  \<open>decode ''var s=[];s[5]=1;''
   = Inr ([PyList [PyNone, PyNone, PyNone, PyNone, PyNone, PyNum (PyInt 1)]], [])\<close>
  by code_simp

text \<open>
  C4. An index assignment whose key evaluates to the integer \<open>idx\<close> and whose variable is
  bound to a list of length \<open>len\<close>: if \<open>len \<le> idx\<close> the list is filled with \<^verbatim>\<open>None\<close> up to
  the index and the value is appended, so that the list has length \<open>idx + 1\<close> with the value
  at \<open>idx\<close>; if \<open>idx < len\<close> the element at \<open>idx\<close> is overwritten. If the variable is bound to
  a dictionary, the value is stored under the key. In particular \<^verbatim>\<open>s[5]=1\<close> after
  \<^verbatim>\<open>var s=[]\<close> leaves \<^verbatim>\<open>[None, None, None, None, None, 1]\<close>.
\<close>

theorem setitem_pads_or_overwrites:
  assumes "js_object_parse key_text = Inr (PyNum (PyInt idx))"
    and "js_object_parse text = Inr v"
    and "locals st name = Some a"
  shows "(\<forall>xs. heap st ! a = PyList xs \<and> int (length xs) \<le> idx \<longrightarrow>
            (\<exists>ys. exec_setitem st name key_text text = Inr (st\<lparr>heap := (heap st)[a := PyList ys]\<rparr>)
                 \<and> ys = xs @ replicate (nat idx - length xs) PyNone @ [v]
                 \<and> int (length ys) = idx + 1 \<and> ys ! nat idx = v))
       \<and> (\<forall>xs. heap st ! a = PyList xs \<and> 0 \<le> idx \<and> idx < int (length xs) \<longrightarrow>
            exec_setitem st name key_text text
              = Inr (st\<lparr>heap := (heap st)[a := PyList (xs[nat idx := v])]\<rparr>))
       \<and> (\<forall>d. heap st ! a = PyDict d \<longrightarrow>
            exec_setitem st name key_text text
              = Inr (st\<lparr>heap := (heap st)[a := PyDict (odict_update d (PyNum (PyInt idx)) v)]\<rparr>))
       \<and> decode ''var s=[];s[5]=1;''
            = Inr ([PyList [PyNone, PyNone, PyNone, PyNone, PyNone, PyNum (PyInt 1)]], [])"
proof (intro conjI allI impI)
  fix xs assume h: "heap st ! a = PyList xs \<and> int (length xs) \<le> idx"
  let ?ys = "xs @ replicate (nat idx - length xs) PyNone @ [v]"
  have "exec_setitem st name key_text text = Inr (st\<lparr>heap := (heap st)[a := PyList ?ys]\<rparr>)"
    using h by (simp add: exec_setitem_eq [OF assms] set_index_list_pad)
  moreover have "int (length ?ys) = idx + 1"
  proof -
    have "length xs \<le> nat idx" using h by linarith
    then have "length ?ys = nat idx + 1" by simp
    then show ?thesis using h by linarith
  qed
  moreover have "?ys ! nat idx = v"
  proof -
    have "length xs \<le> nat idx" using h by linarith
    then have "length (xs @ replicate (nat idx - length xs) PyNone) = nat idx"
      by simp
    then show ?thesis
      by (metis append_assoc nth_append_length)
  qed
  ultimately show "\<exists>ys. exec_setitem st name key_text text
                          = Inr (st\<lparr>heap := (heap st)[a := PyList ys]\<rparr>)
                      \<and> ys = xs @ replicate (nat idx - length xs) PyNone @ [v]
                      \<and> int (length ys) = idx + 1 \<and> ys ! nat idx = v"
    by blast
next
  fix xs assume "heap st ! a = PyList xs \<and> 0 \<le> idx \<and> idx < int (length xs)"
  then show "exec_setitem st name key_text text
               = Inr (st\<lparr>heap := (heap st)[a := PyList (xs[nat idx := v])]\<rparr>)"
    by (simp add: exec_setitem_eq [OF assms] set_index_list_overwrite py_setitem_list_in_range
             del: py_setitem.simps)
next
  fix d assume "heap st ! a = PyDict d"
  then show "exec_setitem st name key_text text
               = Inr (st\<lparr>heap := (heap st)[a := PyDict (odict_update d (PyNum (PyInt idx)) v)]\<rparr>)"
    by (simp add: exec_setitem_eq [OF assms] set_index_dict py_setitem_dict
             del: py_setitem.simps)
next
  show \<open>decode ''var s=[];s[5]=1;''
          = Inr ([PyList [PyNone, PyNone, PyNone, PyNone, PyNone, PyNum (PyInt 1)]], [])\<close>
    by (rule decode_sparse_array)
qed


theorem setitem_pads_or_overwrites_witness:
  "js_object_parse ''5'' = Inr (PyNum (PyInt 5)) \<and> js_object_parse ''1'' = Inr (PyNum (PyInt 1))
   \<and> exec_setitem \<lparr>heap = [PyList []], locals = [''s'' \<mapsto> 0], results = [], exceptions = []\<rparr>
         ''s'' ''5'' ''1''
       = Inr \<lparr>heap = [PyList [PyNone, PyNone, PyNone, PyNone, PyNone, PyNum (PyInt 1)]],
              locals = [''s'' \<mapsto> 0], results = [], exceptions = []\<rparr>"
proof -
  let ?st = "\<lparr>heap = [PyList []], locals = [''s'' \<mapsto> 0::nat], results = [], exceptions = []\<rparr>"
  have k: "js_object_parse ''5'' = Inr (PyNum (PyInt 5))"
    by code_simp
  have v: "js_object_parse ''1'' = Inr (PyNum (PyInt 1))"
    by code_simp
  have l: "locals ?st ''s'' = Some 0"
    by simp
  have "replicate (nat 5 - length []) PyNone = [PyNone, PyNone, PyNone, PyNone, PyNone]"
    by code_simp
  with setitem_pads_or_overwrites [OF k v l] k v show ?thesis
    by simp
qed

subsection \<open>The scan\<close>

lemma scan_append:
  "scan code i st (ms @ ms') =
     (case scan code i st ms of Inl e \<Rightarrow> Inl e | Inr (j, st') \<Rightarrow> scan code j st' ms')"
  by (induction ms arbitrary: i st) (auto simp: Let_def split: sum.splits)

lemma scan_fails:
  assumes "mo \<in> set ms" and "\<And>s. \<exists>e. exec_match s mo = Inl e"
  shows "\<exists>e. scan code i st ms = Inl e"
  using assms(1)
proof (induction ms arbitrary: i st)
  case Nil
  then show ?case by simp
next
  case (Cons m ms)
  show ?case
  proof (cases "m = mo")
    case True
    with assms(2) [of st] show ?thesis
      by (auto simp: Let_def)
  next
    case False
    with Cons show ?thesis
      by (auto simp: Let_def split: sum.splits)
  qed
qed

lemma strip_empty_iff: "strip s = [] \<longleftrightarrow> (\<forall>c \<in> set s. py_isspace c)"
proof -
  have "(\<forall>x \<in> set (dropWhile py_isspace s). py_isspace x) \<longleftrightarrow> dropWhile py_isspace s = []"
    by (metis all_not_in_conv empty_set hd_dropWhile list.set_sel(1))
  then show ?thesis
    by (simp add: strip_def dropWhile_eq_Nil_conv)
qed

subsection \<open>Exceptions reported by the remote side\<close>

lemma exec_match_skip:
  assumes "lastindex mo = Some li"
    and "lastgroup mo = Some ''throw'' \<or> lastgroup mo = Some ''comment''"
  shows "exec_match st mo = Inr st"
  using assms(2) by (auto simp: exec_match_def assms(1))

lemma exec_match_var:
  assumes "lastindex mo = Some li" and "lastgroup mo = Some ''var''"
  shows "exec_match st mo = args2 (drop (li - 1) (groups mo)) (exec_var st)"
  by (simp add: exec_match_def assms)

lemma exec_match_setattr:
  assumes "lastindex mo = Some li" and "lastgroup mo = Some ''setattr''"
  shows "exec_match st mo = args3 (drop (li - 1) (groups mo)) (exec_setattr st)"
  by (simp add: exec_match_def assms)

lemma exec_match_setitem:
  assumes "lastindex mo = Some li" and "lastgroup mo = Some ''setitem''"
  shows "exec_match st mo = args3 (drop (li - 1) (groups mo)) (exec_setitem st)"
  by (simp add: exec_match_def assms)

lemma exec_match_call:
  assumes "lastindex mo = Some li" and "lastgroup mo = Some ''call''"
  shows "exec_match st mo = args3 (drop (li - 1) (groups mo)) (exec_call st)"
  by (simp add: exec_match_def assms)

lemma exec_match_calldict:
  assumes "lastindex mo = Some li" and "lastgroup mo = Some ''calldict''"
  shows "exec_match st mo = args3 (drop (li - 1) (groups mo)) (exec_calldict st)"
  by (simp add: exec_match_def assms)

lemma exec_match_exception:
  assumes "lastindex mo = Some li" and "lastgroup mo = Some ''exception''"
  shows "exec_match st mo = args4 (drop (li - 1) (groups mo)) (exec_exception st)"
  by (simp add: exec_match_def assms)

lemma exec_match_other:
  assumes "lastindex mo = Some li"
    and "lastgroup mo \<noteq> Some ''throw''" and "lastgroup mo \<noteq> Some ''comment''"
    and "lastgroup mo \<noteq> Some ''var''" and "lastgroup mo \<noteq> Some ''setattr''"
    and "lastgroup mo \<noteq> Some ''setitem''" and "lastgroup mo \<noteq> Some ''call''"
    and "lastgroup mo \<noteq> Some ''calldict''" and "lastgroup mo \<noteq> Some ''exception''"
  shows "exec_match st mo = Inr st"
  by (simp add: exec_match_def assms)

lemma exec_match_lastindex:
  "exec_match st mo = Inr st' \<Longrightarrow> \<exists>li. lastindex mo = Some li"
  by (auto simp: exec_match_def split: option.splits)

lemma exec_exception_appends:
  assumes "exec_match st mo = Inr st'" and "lastgroup mo = Some ''exception''"
  shows "\<exists>r. exceptions st' = exceptions st @ [r] \<and> exception_record mo r"
proof -
  from exec_match_lastindex [OF assms(1)] obtain li where li: "lastindex mo = Some li"
    by blast
  from exec_match_exception [OF li assms(2)] assms(1)
  have a: "args4 (drop (li - 1) (groups mo)) (exec_exception st) = Inr st'"
    by simp
  from a obtain tb tc tcn tm where g: "stmt_group mo 1 = Inr tb" "stmt_group mo 2 = Inr tc"
    "stmt_group mo 3 = Inr tcn" "stmt_group mo 4 = Inr tm"
    and x: "exec_exception st tb tc tcn tm = Inr st'"
    by (auto simp: args4_def stmt_group_def li split: sum.splits)
  from x obtain b c cn m where "py_int tb = Inr b" "py_int tc = Inr c"
    "js_object_parse tcn = Inr cn" "js_object_parse tm = Inr m"
    "exceptions st' = exceptions st @ [(b, c, cn, m)]"
    by (auto simp: exec_exception_def split: sum.splits)
  with g show ?thesis
    by (intro exI [of _ "(b, c, cn, m)"]) simp
qed

lemma exec_var_exceptions:
  "exec_var st a b = Inr st' \<Longrightarrow> exceptions st' = exceptions st \<and> results st' = results st"
  by (auto simp: exec_var_def split: sum.splits)

lemma exec_setattr_exceptions:
  "exec_setattr st a b c = Inr st' \<Longrightarrow> exceptions st' = exceptions st \<and> results st' = results st"
  by (auto simp: exec_setattr_def split: sum.splits)

lemma exec_setitem_exceptions:
  "exec_setitem st a b c = Inr st' \<Longrightarrow> exceptions st' = exceptions st \<and> results st' = results st"
  by (auto simp: exec_setitem_def split: sum.splits)

lemma exec_call_exceptions:
  "exec_call st a b c = Inr st' \<Longrightarrow> exceptions st' = exceptions st"
  by (auto simp: exec_call_def split: sum.splits)

lemma exec_calldict_exceptions:
  "exec_calldict st a b c = Inr st' \<Longrightarrow> exceptions st' = exceptions st"
  by (auto simp: exec_calldict_def split: sum.splits)

lemma args2_Inr:
  "args2 gs f = Inr st' \<Longrightarrow> \<exists>a b. group_at gs 1 = Inr a \<and> group_at gs 2 = Inr b \<and> f a b = Inr st'"
  by (auto simp: args2_def split: sum.splits)

lemma args3_Inr:
  "args3 gs f = Inr st' \<Longrightarrow>
   \<exists>a b c. group_at gs 1 = Inr a \<and> group_at gs 2 = Inr b \<and> group_at gs 3 = Inr c
      \<and> f a b c = Inr st'"
  by (auto simp: args3_def split: sum.splits)

lemma exec_other_keeps_exceptions:
  assumes "exec_match st mo = Inr st'" and "lastgroup mo \<noteq> Some ''exception''"
  shows "exceptions st' = exceptions st"
proof -
  from exec_match_lastindex [OF assms(1)] obtain li where li: "lastindex mo = Some li"
    by blast
  let ?gs = "drop (li - 1) (groups mo)"
  consider "lastgroup mo = Some ''throw'' \<or> lastgroup mo = Some ''comment''"
    | "lastgroup mo = Some ''var''" | "lastgroup mo = Some ''setattr''"
    | "lastgroup mo = Some ''setitem''" | "lastgroup mo = Some ''call''"
    | "lastgroup mo = Some ''calldict''"
    | "lastgroup mo \<noteq> Some ''throw''" "lastgroup mo \<noteq> Some ''comment''"
      "lastgroup mo \<noteq> Some ''var''" "lastgroup mo \<noteq> Some ''setattr''"
      "lastgroup mo \<noteq> Some ''setitem''" "lastgroup mo \<noteq> Some ''call''"
      "lastgroup mo \<noteq> Some ''calldict''"
    by blast
  then show ?thesis
  proof cases
    case 1
    from exec_match_skip [OF li 1] assms(1) show ?thesis by simp
  next
    case 2
    from exec_match_var [OF li 2] assms(1) show ?thesis
      by (auto dest!: args2_Inr dest: exec_var_exceptions)
  next
    case 3
    from exec_match_setattr [OF li 3] assms(1) show ?thesis
      by (auto dest!: args3_Inr dest: exec_setattr_exceptions)
  next
    case 4
    from exec_match_setitem [OF li 4] assms(1) show ?thesis
      by (auto dest!: args3_Inr dest: exec_setitem_exceptions)
  next
    case 5
    from exec_match_call [OF li 5] assms(1) show ?thesis
      by (auto dest!: args3_Inr dest: exec_call_exceptions)
  next
    case 6
    from exec_match_calldict [OF li 6] assms(1) show ?thesis
      by (auto dest!: args3_Inr dest: exec_calldict_exceptions)
  next
    case 7
    from exec_match_other [OF li 7 assms(2)] assms(1) show ?thesis by simp
  qed
qed

lemma scan_exceptions:
  "scan code i st ms = Inr (j, st') \<Longrightarrow>
   \<exists>rs. exceptions st' = exceptions st @ rs
      \<and> list_all2 exception_record (filter (\<lambda>mo. lastgroup mo = Some ''exception'') ms) rs"
proof (induction ms arbitrary: i st)
  case Nil
  then show ?case by simp
next
  case (Cons m ms)
  from Cons.prems obtain st1 where e: "exec_match st m = Inr st1"
    and s: "scan code (mend m) st1 ms = Inr (j, st')"
    by (auto simp: Let_def split: if_splits sum.splits)
  from Cons.IH [OF s] obtain rs where rs: "exceptions st' = exceptions st1 @ rs"
    "list_all2 exception_record (filter (\<lambda>mo. lastgroup mo = Some ''exception'') ms) rs"
    by blast
  show ?case
  proof (cases "lastgroup m = Some ''exception''")
    case True
    from exec_exception_appends [OF e True] obtain r
      where "exceptions st1 = exceptions st @ [r]" "exception_record m r"
      by blast
    with rs True show ?thesis
      by (intro exI [of _ "r # rs"]) simp
  next
    case False
    with exec_other_keeps_exceptions [OF e False] rs show ?thesis
      by (intro exI [of _ rs]) simp
  qed
qed

text \<open>
  C2. If the scan of the input completes (no fragment is left unrecognised, no statement
  fails) and the input has at least one exception statement, \<^verbatim>\<open>parse_js\<close> raises the one
  \<^verbatim>\<open>ValueError\<close> that carries a record for every exception statement of the input, in the
  order of the statements; it returns no dictionary.
\<close>

theorem all_exceptions_reported:
  assumes "scan code 0 initial_state (finditer pattern code) = Inr (i, st)"
    and "strip (drop i code) = []"
    and "\<exists>mo \<in> set (finditer pattern code). lastgroup mo = Some ''exception''"
  shows "\<exists>recs. parse_js code = Inl (ValueError (DWRReturnedExceptions recs))
           \<and> list_all2 exception_record
                (filter (\<lambda>mo. lastgroup mo = Some ''exception'') (finditer pattern code)) recs"
proof -
  from scan_exceptions [OF assms(1)] obtain recs where recs: "exceptions st = recs"
    "list_all2 exception_record
       (filter (\<lambda>mo. lastgroup mo = Some ''exception'') (finditer pattern code)) recs"
    by (auto simp: initial_state_def)
  from assms(3) have "filter (\<lambda>mo. lastgroup mo = Some ''exception'') (finditer pattern code) \<noteq> []"
    by (auto simp: filter_empty_conv)
  with recs(2) have "recs \<noteq> []"
    by auto
  with assms(1,2) recs(1) have "parse_js code = Inl (ValueError (DWRReturnedExceptions recs))"
    by (simp add: parse_js_def decode_def)
  with recs(2) show ?thesis
    by blast
qed

lemma decode_two_exceptions:
  \<open>decode ''dwr.engine._remoteHandleException('42','5',{javaClassName:"java.lang.Throwable",message:"Error"});\<newline>dwr.engine._remoteHandleException('42','6',{javaClassName:"java.lang.Exception",message:"Other"});\<newline>''
   = Inl (ValueError (DWRReturnedExceptions
       [(42, 5, PyStr ''java.lang.Throwable'', PyStr ''Error''),
        (42, 6, PyStr ''java.lang.Exception'', PyStr ''Other'')]))\<close>
  by code_simp

theorem all_exceptions_reported_witness:
  \<open>\<exists>code. code = ''dwr.engine._remoteHandleException('42','5',{javaClassName:"java.lang.Throwable",message:"Error"});\<newline>dwr.engine._remoteHandleException('42','6',{javaClassName:"java.lang.Exception",message:"Other"});\<newline>''
     \<and> (\<exists>i st. scan code 0 initial_state (finditer pattern code) = Inr (i, st)
                \<and> strip (drop i code) = [])
     \<and> (\<exists>mo \<in> set (finditer pattern code). lastgroup mo = Some ''exception'')
     \<and> (\<exists>recs. parse_js code = Inl (ValueError (DWRReturnedExceptions recs))
           \<and> list_all2 exception_record
                (filter (\<lambda>mo. lastgroup mo = Some ''exception'') (finditer pattern code)) recs)
     \<and> parse_js code = Inl (ValueError (DWRReturnedExceptions
          [(42, 5, PyStr ''java.lang.Throwable'', PyStr ''Error''),
           (42, 6, PyStr ''java.lang.Exception'', PyStr ''Other'')]))\<close>
proof -
  let ?code = \<open>''dwr.engine._remoteHandleException('42','5',{javaClassName:"java.lang.Throwable",message:"Error"});\<newline>dwr.engine._remoteHandleException('42','6',{javaClassName:"java.lang.Exception",message:"Other"});\<newline>''\<close>
  have "case scan ?code 0 initial_state (finditer pattern ?code) of
          Inl e \<Rightarrow> False | Inr (i, st) \<Rightarrow> strip (drop i ?code) = []"
    by code_simp
  then obtain i st where s: "scan ?code 0 initial_state (finditer pattern ?code) = Inr (i, st)"
    and t: "strip (drop i ?code) = []"
    by (auto split: sum.splits)
  have x: "\<exists>mo \<in> set (finditer pattern ?code). lastgroup mo = Some ''exception''"
    by code_simp
  from all_exceptions_reported [OF s t x] s t x decode_two_exceptions show ?thesis
    by (auto simp: parse_js_def)
qed

subsection \<open>The dictionary of the results\<close>

lemma exec_call_result:
  "exec_call st tb tc names = Inr st' \<Longrightarrow>
   \<exists>b c d. py_int tb = Inr b \<and> py_int tc = Inr c \<and> results st' = results st @ [(b, c, d)]"
  by (auto simp: exec_call_def split: sum.splits)

lemma exec_calldict_result:
  "exec_calldict st tb tc body = Inr st' \<Longrightarrow>
   \<exists>b c d. py_int tb = Inr b \<and> py_int tc = Inr c \<and> results st' = results st @ [(b, c, d)]"
  by (auto simp: exec_calldict_def split: sum.splits)

lemma exec_call_appends:
  assumes "exec_match st mo = Inr st'" and "is_call mo"
  shows "\<exists>r. results st' = results st @ [r] \<and> call_result mo r"
proof -
  from exec_match_lastindex [OF assms(1)] obtain li where li: "lastindex mo = Some li"
    by blast
  let ?gs = "drop (li - 1) (groups mo)"
  from assms(2) consider "lastgroup mo = Some ''call''" | "lastgroup mo = Some ''calldict''"
    by (auto simp: is_call_def)
  then have "\<exists>tb tc b c d. group_at ?gs 1 = Inr tb \<and> group_at ?gs 2 = Inr tc
      \<and> py_int tb = Inr b \<and> py_int tc = Inr c \<and> results st' = results st @ [(b, c, d)]"
  proof cases
    case 1
    from exec_match_call [OF li 1] assms(1) obtain tb tc names
      where "group_at ?gs 1 = Inr tb" "group_at ?gs 2 = Inr tc" "exec_call st tb tc names = Inr st'"
      by (auto dest!: args3_Inr)
    with exec_call_result [of st tb tc names st'] show ?thesis
      by blast
  next
    case 2
    from exec_match_calldict [OF li 2] assms(1) obtain tb tc body
      where "group_at ?gs 1 = Inr tb" "group_at ?gs 2 = Inr tc"
        "exec_calldict st tb tc body = Inr st'"
      by (auto dest!: args3_Inr)
    with exec_calldict_result [of st tb tc body st'] show ?thesis
      by blast
  qed
  then obtain tb tc b c d where g: "stmt_group mo 1 = Inr tb" "stmt_group mo 2 = Inr tc"
    and ids: "py_int tb = Inr b" "py_int tc = Inr c"
    and r: "results st' = results st @ [(b, c, d)]"
    by (auto simp: stmt_group_def li)
  from g ids r assms(1) have "call_result mo (b, c, d)"
    by auto
  with r show ?thesis
    by blast
qed

lemma exec_exception_results:
  "exec_exception st a b c d = Inr st' \<Longrightarrow> results st' = results st"
  by (auto simp: exec_exception_def split: sum.splits)

lemma args4_Inr:
  "args4 gs f = Inr st' \<Longrightarrow>
   \<exists>a b c d. group_at gs 1 = Inr a \<and> group_at gs 2 = Inr b \<and> group_at gs 3 = Inr c
      \<and> group_at gs 4 = Inr d \<and> f a b c d = Inr st'"
  by (auto simp: args4_def split: sum.splits)

lemma exec_other_keeps_results:
  assumes "exec_match st mo = Inr st'" and "\<not> is_call mo"
  shows "results st' = results st"
proof -
  from exec_match_lastindex [OF assms(1)] obtain li where li: "lastindex mo = Some li"
    by blast
  from assms(2) have nc: "lastgroup mo \<noteq> Some ''call''" "lastgroup mo \<noteq> Some ''calldict''"
    by (auto simp: is_call_def)
  consider "lastgroup mo = Some ''throw'' \<or> lastgroup mo = Some ''comment''"
    | "lastgroup mo = Some ''var''" | "lastgroup mo = Some ''setattr''"
    | "lastgroup mo = Some ''setitem''" | "lastgroup mo = Some ''exception''"
    | "lastgroup mo \<noteq> Some ''throw''" "lastgroup mo \<noteq> Some ''comment''"
      "lastgroup mo \<noteq> Some ''var''" "lastgroup mo \<noteq> Some ''setattr''"
      "lastgroup mo \<noteq> Some ''setitem''" "lastgroup mo \<noteq> Some ''exception''"
    by blast
  then show ?thesis
  proof cases
    case 1
    from exec_match_skip [OF li 1] assms(1) show ?thesis by simp
  next
    case 2
    from exec_match_var [OF li 2] assms(1) show ?thesis
      by (auto dest!: args2_Inr dest: exec_var_exceptions)
  next
    case 3
    from exec_match_setattr [OF li 3] assms(1) show ?thesis
      by (auto dest!: args3_Inr dest: exec_setattr_exceptions)
  next
    case 4
    from exec_match_setitem [OF li 4] assms(1) show ?thesis
      by (auto dest!: args3_Inr dest: exec_setitem_exceptions)
  next
    case 5
    from exec_match_exception [OF li 5] assms(1) show ?thesis
      by (auto dest!: args4_Inr dest: exec_exception_results)
  next
    case 6
    from exec_match_other [OF li 6(1-5) nc 6(6)] assms(1) show ?thesis by simp
  qed
qed

lemma scan_results:
  "scan code i st ms = Inr (j, st') \<Longrightarrow>
   \<exists>rs. results st' = results st @ rs \<and> list_all2 call_result (filter is_call ms) rs"
proof (induction ms arbitrary: i st)
  case Nil
  then show ?case by simp
next
  case (Cons m ms)
  from Cons.prems obtain st1 where e: "exec_match st m = Inr st1"
    and s: "scan code (mend m) st1 ms = Inr (j, st')"
    by (auto simp: Let_def split: if_splits sum.splits)
  from Cons.IH [OF s] obtain rs where rs: "results st' = results st1 @ rs"
    "list_all2 call_result (filter is_call ms) rs"
    by blast
  show ?case
  proof (cases "is_call m")
    case True
    from exec_call_appends [OF e True] obtain r
      where "results st1 = results st @ [r]" "call_result m r"
      by blast
    with rs True show ?thesis
      by (intro exI [of _ "r # rs"]) simp
  next
    case False
    with exec_other_keeps_results [OF e False] rs show ?thesis
      by (intro exI [of _ rs]) simp
  qed
qed

lemma data_for_Cons:
  "data_for c ((b, c', d) # rs) = (if c' = c then d # data_for c rs else data_for c rs)"
  by (simp add: data_for_def)

lemma result_dict_lookup:
  "result_dict h m rs c =
     (if data_for c rs = [] then m c else Some (map (deref h) (last (data_for c rs))))"
proof (induction rs arbitrary: m)
  case Nil
  then show ?case by (simp add: data_for_def)
next
  case (Cons r rs)
  obtain b c' d where r: "r = (b, c', d)"
    by (cases r) auto
  show ?case
    unfolding r by (simp add: Cons.IH data_for_Cons)
qed

text \<open>
  C5. If \<^verbatim>\<open>parse_js\<close> returns a dictionary, the results of the scan are the results of the
  call statements of the input, positional and keyed, in their order; the dictionary has
  an entry for a call id exactly if some call statement has that id, and the entry holds
  the data of the last of these statements.
\<close>

theorem last_call_wins:
  assumes "parse_js code = Inr m"
  shows "\<exists>h rs. decode code = Inr (h, rs)
           \<and> list_all2 call_result (filter is_call (finditer pattern code)) rs
           \<and> (\<forall>c. m c = (if data_for c rs = [] then None
                          else Some (map (deref h) (last (data_for c rs)))))"
proof -
  from assms obtain h rs where d: "decode code = Inr (h, rs)"
    and m: "m = result_dict h Map.empty rs"
    by (auto simp: parse_js_def split: sum.splits)
  from d obtain i st where s: "scan code 0 initial_state (finditer pattern code) = Inr (i, st)"
    and rs: "rs = results st"
    by (auto simp: decode_def Let_def split: sum.splits if_splits)
  from scan_results [OF s] rs
  have "list_all2 call_result (filter is_call (finditer pattern code)) rs"
    by (simp add: initial_state_def)
  with d m show ?thesis
    by (auto simp: result_dict_lookup)
qed

lemma decode_same_call_id:
  \<open>decode ''var a=[1];var b=[2];dwr.engine._remoteHandleCallback('1','7',[a]);dwr.engine._remoteHandleCallback('2','7',{"k":b});''
   = Inr ([PyList [PyNum (PyInt 1)], PyList [PyNum (PyInt 2)]],
          [(1, 7, [Ref 0]), (2, 7, [KeyRef (PyStr ''k'') 1])])\<close>
  by code_simp

theorem last_call_wins_witness:
  \<open>\<exists>code m. code = ''var a=[1];var b=[2];dwr.engine._remoteHandleCallback('1','7',[a]);dwr.engine._remoteHandleCallback('2','7',{"k":b});''
     \<and> m = [7 \<mapsto> [KeyItem (PyStr ''k'') (PyList [PyNum (PyInt 2)])]]
     \<and> parse_js code = Inr m
     \<and> (\<exists>h rs. decode code = Inr (h, rs)
           \<and> list_all2 call_result (filter is_call (finditer pattern code)) rs
           \<and> (\<forall>c. m c = (if data_for c rs = [] then None
                          else Some (map (deref h) (last (data_for c rs))))))\<close>
proof -
  let ?code = \<open>''var a=[1];var b=[2];dwr.engine._remoteHandleCallback('1','7',[a]);dwr.engine._remoteHandleCallback('2','7',{"k":b});''\<close>
  have p: "parse_js ?code = Inr [7 \<mapsto> [KeyItem (PyStr ''k'') (PyList [PyNum (PyInt 2)])]]"
    by (simp add: parse_js_def decode_same_call_id)
  from last_call_wins [OF p] p show ?thesis
    by blast
qed

subsection \<open>Text that no pattern matches\<close>

lemma scan_end:
  "scan code i st ms = Inr (j, st') \<Longrightarrow> j = (if ms = [] then i else mend (last ms))"
  by (induction ms arbitrary: i st) (auto simp: Let_def split: if_splits sum.splits)

lemma parse_js_Inl: "decode code = Inl e \<Longrightarrow> parse_js code = Inl e"
  by (simp add: parse_js_def)

lemma decode_stray_before_lookup:
  "decode ''s.a=1;x'' = Inl (KeyError ''s'')"
  by code_simp

lemma stray_tail:
  "strip (drop (mend (last (finditer pattern ''s.a=1;x''))) ''s.a=1;x'') = ''x''"
  by code_simp

text \<open>
  C3, as stated, fails: in \<^verbatim>\<open>s.a=1;x\<close> the text \<^verbatim>\<open>x\<close> after the last statement matches no
  pattern, but the statement before it is executed first and raises \<^verbatim>\<open>KeyError\<close>.
\<close>

theorem stray_text_counterexample:
  "strip (drop (mend (last (finditer pattern ''s.a=1;x''))) ''s.a=1;x'') = ''x''
   \<and> parse_js ''s.a=1;x'' = Inl (KeyError ''s'')"
  using stray_tail parse_js_Inl [OF decode_stray_before_lookup] by simp

text \<open>
  C3, amended. Let the matches of the input be \<open>pre @ post\<close>, let the scan of \<open>pre\<close> succeed,
  and let \<open>gap\<close> be the text between the end of \<open>pre\<close> (the start of the input if \<open>pre\<close> is
  empty) and the start of \<open>post\<close> (the end of the input if \<open>post\<close> is empty). If \<open>gap\<close> has
  a character that is not whitespace, \<^verbatim>\<open>parse_js\<close> raises the \<^verbatim>\<open>ValueError\<close> that names
  \<open>gap\<close> without the whitespace around it, whatever the statements of \<open>post\<close> are.
\<close>

theorem stray_text_is_reported:
  assumes "finditer pattern code = pre @ post"
    and "scan code 0 initial_state pre = Inr (i, st)"
    and "gap = (case post of [] \<Rightarrow> drop i code | mo # _ \<Rightarrow> slice code i (mstart mo))"
    and "\<exists>c \<in> set gap. \<not> py_isspace c"
  shows "i = (if pre = [] then 0 else mend (last pre))
         \<and> parse_js code = Inl (ValueError (DidNotParse (strip gap)))"
proof
  from scan_end [OF assms(2)] show "i = (if pre = [] then 0 else mend (last pre))" .
  from assms(4) have ne: "strip gap \<noteq> []"
    by (simp add: strip_empty_iff)
  show "parse_js code = Inl (ValueError (DidNotParse (strip gap)))"
  proof (cases post)
    case Nil
    with assms(1,2,3) ne show ?thesis
      by (simp add: parse_js_def decode_def)
  next
    case (Cons mo post')
    with assms(3) ne have "scan code i st post = Inl (ValueError (DidNotParse (strip gap)))"
      by (simp add: Let_def)
    with assms(1,2) have
      "scan code 0 initial_state (finditer pattern code)
         = Inl (ValueError (DidNotParse (strip gap)))"
      by (simp add: scan_append)
    then show ?thesis
      by (simp add: parse_js_def decode_def)
  qed
qed

theorem stray_text_is_reported_witness:
  \<open>\<exists>code pre post i st gap.
     code = ''var s=[]; oops s[0]=;'' \<and> finditer pattern code = pre @ post
     \<and> length pre = 1 \<and> length post = 1
     \<and> scan code 0 initial_state pre = Inr (i, st)
     \<and> gap = (case post of [] \<Rightarrow> drop i code | mo # _ \<Rightarrow> slice code i (mstart mo))
     \<and> (\<exists>c \<in> set gap. \<not> py_isspace c)
     \<and> i = (if pre = [] then 0 else mend (last pre))
     \<and> strip gap = ''oops''
     \<and> parse_js code = Inl (ValueError (DidNotParse (strip gap)))\<close>
proof -
  let ?code = "''var s=[]; oops s[0]=;''"
  let ?pre = "take 1 (finditer pattern ?code)"
  let ?post = "drop 1 (finditer pattern ?code)"
  have a: "finditer pattern ?code = ?pre @ ?post"
    by simp
  have len: "length ?pre = 1 \<and> length ?post = 1"
    by code_simp
  have "\<not> isl (scan ?code 0 initial_state ?pre)"
    by code_simp
  then obtain i st where s: "scan ?code 0 initial_state ?pre = Inr (i, st)"
    by (cases "scan ?code 0 initial_state ?pre") auto
  define gap where "gap = (case ?post of [] \<Rightarrow> drop i ?code | mo # _ \<Rightarrow> slice ?code i (mstart mo))"
  have "case scan ?code 0 initial_state ?pre of
          Inl e \<Rightarrow> False
        | Inr (i, st) \<Rightarrow>
            (\<exists>c \<in> set (case ?post of [] \<Rightarrow> drop i ?code | mo # _ \<Rightarrow> slice ?code i (mstart mo)).
               \<not> py_isspace c)
            \<and> strip (case ?post of [] \<Rightarrow> drop i ?code | mo # _ \<Rightarrow> slice ?code i (mstart mo))
                = ''oops''"
    by code_simp
  with s have c: "\<exists>c \<in> set gap. \<not> py_isspace c" and n: "strip gap = ''oops''"
    by (simp_all add: gap_def)
  from stray_text_is_reported [OF a s gap_def c] a len s gap_def c n show ?thesis
    by blast
qed

subsection \<open>Names that were never declared\<close>

lemma exec_var_locals:
  "exec_var st name text = Inr st' \<Longrightarrow> locals st' = (locals st)(name \<mapsto> length (heap st))"
  by (auto simp: exec_var_def split: sum.splits)

lemma exec_setattr_locals: "exec_setattr st a b c = Inr st' \<Longrightarrow> locals st' = locals st"
  by (auto simp: exec_setattr_def split: sum.splits)

lemma exec_setitem_locals: "exec_setitem st a b c = Inr st' \<Longrightarrow> locals st' = locals st"
  by (auto simp: exec_setitem_def split: sum.splits)

lemma exec_match_dom:
  assumes "exec_match st mo = Inr st'"
  shows "dom (locals st') = dom (locals st) \<union> {n. declares mo n}"
proof -
  from exec_match_lastindex [OF assms] obtain li where li: "lastindex mo = Some li"
    by blast
  consider "lastgroup mo = Some ''throw'' \<or> lastgroup mo = Some ''comment''"
    | "lastgroup mo = Some ''var''" | "lastgroup mo = Some ''setattr''"
    | "lastgroup mo = Some ''setitem''" | "lastgroup mo = Some ''call''"
    | "lastgroup mo = Some ''calldict''" | "lastgroup mo = Some ''exception''"
    | "lastgroup mo \<noteq> Some ''throw''" "lastgroup mo \<noteq> Some ''comment''"
      "lastgroup mo \<noteq> Some ''var''" "lastgroup mo \<noteq> Some ''setattr''"
      "lastgroup mo \<noteq> Some ''setitem''" "lastgroup mo \<noteq> Some ''call''"
      "lastgroup mo \<noteq> Some ''calldict''" "lastgroup mo \<noteq> Some ''exception''"
    by blast
  then show ?thesis
  proof cases
    case 1
    from exec_match_skip [OF li 1] assms 1 show ?thesis
      by (auto simp: declares_def)
  next
    case 2
    from exec_match_var [OF li 2] assms obtain name tx
      where "stmt_group mo 1 = Inr name" "exec_var st name tx = Inr st'"
      by (auto simp: stmt_group_def li dest!: args2_Inr)
    with 2 show ?thesis
      by (auto simp: declares_def dest!: exec_var_locals)
  next
    case 3
    from exec_match_setattr [OF li 3] assms 3 show ?thesis
      by (auto simp: declares_def dest!: args3_Inr exec_setattr_locals)
  next
    case 4
    from exec_match_setitem [OF li 4] assms 4 show ?thesis
      by (auto simp: declares_def dest!: args3_Inr exec_setitem_locals)
  next
    case 5
    with exec_terminal_env [OF assms] show ?thesis
      by (auto simp: declares_def)
  next
    case 6
    with exec_terminal_env [OF assms] show ?thesis
      by (auto simp: declares_def)
  next
    case 7
    with exec_terminal_env [OF assms] show ?thesis
      by (auto simp: declares_def)
  next
    case 8
    from exec_match_other [OF li 8] assms 8 show ?thesis
      by (auto simp: declares_def)
  qed
qed

lemma scan_dom:
  "scan code i st ms = Inr (j, st') \<Longrightarrow>
   dom (locals st') = dom (locals st) \<union> {n. \<exists>m \<in> set ms. declares m n}"
proof (induction ms arbitrary: i st)
  case Nil
  then show ?case by simp
next
  case (Cons m ms)
  from Cons.prems obtain st1 where e: "exec_match st m = Inr st1"
    and s: "scan code (mend m) st1 ms = Inr (j, st')"
    by (auto simp: Let_def split: if_splits sum.splits)
  from Cons.IH [OF s] exec_match_dom [OF e] show ?case
    by auto
qed


lemma scan_undeclared:
  assumes "scan code 0 initial_state ms = Inr (j, st)"
  shows "locals st n = None \<longleftrightarrow> (\<forall>m \<in> set ms. \<not> declares m n)"
proof -
  from scan_dom [OF assms] have "dom (locals st) = {n. \<exists>m \<in> set ms. declares m n}"
    by (simp add: initial_state_def)
  then have "n \<in> dom (locals st) \<longleftrightarrow> (\<exists>m \<in> set ms. declares m n)"
    by simp
  then show ?thesis
    by (metis domIff)
qed

lemma lookup_all_undeclared:
  "n \<in> set ns \<Longrightarrow> locals st n = None \<Longrightarrow>
   \<exists>n'. lookup_all st ns = Inl (KeyError n') \<and> locals st n' = None"
proof (induction ns)
  case Nil
  then show ?case by simp
next
  case (Cons a ns)
  show ?case
  proof (cases "locals st a")
    case None
    then show ?thesis
      by (auto simp: lookup_def)
  next
    case (Some addr)
    with Cons.prems have "n \<in> set ns"
      by auto
    from Cons.IH [OF this Cons.prems(2)] Some show ?thesis
      by (auto simp: lookup_def)
  qed
qed

lemma keyed_entries_undeclared:
  "list_all entry_in_order ps \<Longrightarrow> list_ex (entry_names n) ps \<Longrightarrow> locals st n = None \<Longrightarrow>
   \<exists>n'. keyed_entries st ps = Inl (KeyError n') \<and> locals st n' = None"
proof (induction ps)
  case Nil
  then show ?case by simp
next
  case (Cons p ps)
  from Cons.prems(1) obtain k v key where p: "split (CHR '':'') p = [k, v]"
    and k: "js_object_parse k = Inr key"
    by (cases "js_object_parse (hd (split (CHR '':'') p))")
       (auto simp: entry_in_order_def split: list.splits)
  show ?case
  proof (cases "locals st v")
    case None
    with p k show ?thesis
      by (auto simp: lookup_def)
  next
    case (Some addr)
    with Cons.prems(3) p have "\<not> entry_names n p"
      by (auto simp: entry_names_def)
    with Cons.prems(2) have "list_ex (entry_names n) ps"
      by simp
    from Cons.IH [OF _ this Cons.prems(3)] Cons.prems(1) p k Some show ?thesis
      by (auto simp: lookup_def)
  qed
qed

lemma evaluates_Inr: "evaluates t \<Longrightarrow> \<exists>tx v. t = Inr tx \<and> js_object_parse tx = Inr v"
  by (cases t; cases "js_object_parse (projr t)") (auto simp: evaluates_def)

lemma integer_ids_Inr:
  "integer_ids mo \<Longrightarrow>
   \<exists>tb tc b c. stmt_group mo 1 = Inr tb \<and> stmt_group mo 2 = Inr tc
      \<and> py_int tb = Inr b \<and> py_int tc = Inr c"
  by (cases "stmt_group mo 1"; cases "stmt_group mo 2";
      cases "py_int (projr (stmt_group mo 1))"; cases "py_int (projr (stmt_group mo 2))")
     (auto simp: integer_ids_def)

lemma stmt_group_lastindex: "stmt_group mo k = Inr t \<Longrightarrow> \<exists>li. lastindex mo = Some li"
  by (auto simp: stmt_group_def split: option.splits)

lemma exec_undeclared:
  assumes "setattr_on mo n \<or> setitem_on mo n \<or> call_naming mo n \<or> calldict_naming mo n"
    and "locals st n = None"
  shows "\<exists>n'. exec_match st mo = Inl (KeyError n') \<and> locals st n' = None"
proof -
  from assms(1) have "\<exists>t. stmt_group mo 1 = Inr t"
    by (auto simp: setattr_on_def setitem_on_def call_naming_def calldict_naming_def
             dest: integer_ids_Inr)
  with stmt_group_lastindex obtain li where li: "lastindex mo = Some li"
    by blast
  let ?gs = "drop (li - 1) (groups mo)"
  have g: "stmt_group mo k = group_at ?gs k" for k
    by (simp add: stmt_group_def li)
  from assms(1) consider (setattr) "setattr_on mo n" | (setitem) "setitem_on mo n"
    | (call) "call_naming mo n" | (calldict) "calldict_naming mo n"
    by blast
  then show ?thesis
  proof cases
    case setattr
    then obtain key tx v where "group_at ?gs 1 = Inr n" "group_at ?gs 2 = Inr key"
      "group_at ?gs 3 = Inr tx" "js_object_parse tx = Inr v"
      by (cases "stmt_group mo 2") (auto simp: setattr_on_def g dest!: evaluates_Inr)
    with setattr assms(2) show ?thesis
      by (auto simp: exec_match_setattr [OF li] setattr_on_def args3_def exec_setattr_def
                     lookup_def)
  next
    case setitem
    then obtain kt key tx v where "group_at ?gs 1 = Inr n" "group_at ?gs 2 = Inr kt"
      "group_at ?gs 3 = Inr tx" "js_object_parse kt = Inr key" "js_object_parse tx = Inr v"
      by (auto simp: setitem_on_def g dest!: evaluates_Inr)
    with setitem assms(2) show ?thesis
      by (auto simp: exec_match_setitem [OF li] setitem_on_def args3_def exec_setitem_def
                     lookup_def)
  next
    case call
    then obtain tb tc b c names where x: "group_at ?gs 1 = Inr tb" "group_at ?gs 2 = Inr tc"
      "py_int tb = Inr b" "py_int tc = Inr c" "group_at ?gs 3 = Inr names" "names \<noteq> []"
      "n \<in> set (split (CHR '','') names)"
      by (cases "stmt_group mo 3") (auto simp: call_naming_def g dest!: integer_ids_Inr)
    from lookup_all_undeclared [OF x(7) assms(2)] obtain n'
      where "lookup_all st (split (CHR '','') names) = Inl (KeyError n')" "locals st n' = None"
      by blast
    with call x show ?thesis
      by (auto simp: exec_match_call [OF li] call_naming_def args3_def exec_call_def)
  next
    case calldict
    then obtain tb tc b c body where x: "group_at ?gs 1 = Inr tb" "group_at ?gs 2 = Inr tc"
      "py_int tb = Inr b" "py_int tc = Inr c" "group_at ?gs 3 = Inr body" "body \<noteq> []"
      "list_all entry_in_order (split (CHR '','') body)"
      "list_ex (entry_names n) (split (CHR '','') body)"
      by (cases "stmt_group mo 3") (auto simp: calldict_naming_def g dest!: integer_ids_Inr)
    from keyed_entries_undeclared [OF x(7,8) assms(2)] obtain n'
      where "keyed_entries st (split (CHR '','') body) = Inl (KeyError n')" "locals st n' = None"
      by blast
    with calldict x show ?thesis
      by (auto simp: exec_match_calldict [OF li] calldict_naming_def args3_def exec_calldict_def)
  qed
qed

lemma decode_literal_before_lookup:
  "decode ''x.a=-1;'' = Inl (ValueError UnhandledNodeType)"
  by code_simp

lemma undeclared_setattr:
  "map lastgroup (finditer pattern ''x.a=-1;'') = [Some ''setattr'']
   \<and> stmt_group (hd (finditer pattern ''x.a=-1;'')) 1 = Inr ''x''"
  by code_simp

text \<open>
  C6, as stated, fails: \<^verbatim>\<open>x.a=-1;\<close> is one field assignment to a name that was never
  declared, but its value text is evaluated before the name is looked up, and the
  evaluator refuses the unary minus with a \<^verbatim>\<open>ValueError\<close>.
\<close>

theorem undeclared_name_counterexample:
  "map lastgroup (finditer pattern ''x.a=-1;'') = [Some ''setattr'']
   \<and> stmt_group (hd (finditer pattern ''x.a=-1;'')) 1 = Inr ''x''
   \<and> parse_js ''x.a=-1;'' = Inl (ValueError UnhandledNodeType)"
  using undeclared_setattr parse_js_Inl [OF decode_literal_before_lookup] by simp

text \<open>
  C6, amended. Let the matches of the input be \<open>pre @ mo # post\<close>, let the scan of \<open>pre\<close>
  succeed and the text between \<open>pre\<close> and \<open>mo\<close> be whitespace, let no statement of \<open>pre\<close>
  declare the name \<open>n\<close>, and let \<open>mo\<close> be a field assignment or an index assignment to \<open>n\<close>
  whose literal texts evaluate, or a call that names \<open>n\<close> (with integer ids, and for a
  keyed call with entries of one colon each whose key texts evaluate). Then \<^verbatim>\<open>parse_js\<close>
  raises \<^verbatim>\<open>KeyError\<close> for a name that no statement of \<open>pre\<close> declares, and returns no
  dictionary.
\<close>

theorem undeclared_name_raises_KeyError:
  assumes "finditer pattern code = pre @ mo # post"
    and "scan code 0 initial_state pre = Inr (i, st)"
    and "strip (slice code i (mstart mo)) = []"
    and "list_all (\<lambda>m. \<not> declares m n) pre"
    and "setattr_on mo n \<or> setitem_on mo n \<or> call_naming mo n \<or> calldict_naming mo n"
  shows "\<exists>n'. parse_js code = Inl (KeyError n') \<and> list_all (\<lambda>m. \<not> declares m n') pre"
proof -
  from assms(4) scan_undeclared [OF assms(2)] have "locals st n = None"
    by (simp add: list_all_iff)
  from exec_undeclared [OF assms(5) this] obtain n'
    where e: "exec_match st mo = Inl (KeyError n')" and u: "locals st n' = None"
    by blast
  from e assms(3) have "scan code i st (mo # post) = Inl (KeyError n')"
    by (simp add: Let_def)
  with assms(1,2) have "scan code 0 initial_state (finditer pattern code) = Inl (KeyError n')"
    by (simp add: scan_append)
  then have "parse_js code = Inl (KeyError n')"
    by (simp add: parse_js_def decode_def)
  moreover from u scan_undeclared [OF assms(2)] have "list_all (\<lambda>m. \<not> declares m n') pre"
    by (simp add: list_all_iff)
  ultimately show ?thesis
    by blast
qed

theorem undeclared_name_raises_KeyError_witness:
  \<open>\<exists>code pre mo post i st.
     code = ''var s={};t.a=1;var t={};'' \<and> finditer pattern code = pre @ mo # post
     \<and> length pre = 1 \<and> length post = 1
     \<and> scan code 0 initial_state pre = Inr (i, st)
     \<and> strip (slice code i (mstart mo)) = []
     \<and> list_all (\<lambda>m. \<not> declares m ''t'') pre
     \<and> setattr_on mo ''t''
     \<and> (\<exists>n'. parse_js code = Inl (KeyError n') \<and> list_all (\<lambda>m. \<not> declares m n') pre)
     \<and> parse_js code = Inl (KeyError ''t'')\<close>
proof -
  let ?code = "''var s={};t.a=1;var t={};''"
  let ?ms = "finditer pattern ?code"
  let ?pre = "take 1 ?ms"
  let ?mo = "?ms ! 1"
  let ?post = "drop 2 ?ms"
  have len: "length ?ms = 3"
    by code_simp
  then have a: "?ms = ?pre @ ?mo # ?post"
    by (metis Cons_nth_drop_Suc append_take_drop_id one_add_one one_less_numeral_iff
          plus_1_eq_Suc semiring_norm(77))
  from len have l: "length ?pre = 1 \<and> length ?post = 1"
    by simp
  have "case scan ?code 0 initial_state ?pre of
          Inl e \<Rightarrow> False
        | Inr (i, st) \<Rightarrow> strip (slice ?code i (mstart ?mo)) = []"
    by code_simp
  then obtain i st where s: "scan ?code 0 initial_state ?pre = Inr (i, st)"
    and b: "strip (slice ?code i (mstart ?mo)) = []"
    by (auto split: sum.splits)
  have d: "list_all (\<lambda>m. \<not> declares m ''t'') ?pre"
    by code_simp
  have r: "setattr_on ?mo ''t''"
    by code_simp
  have "decode ?code = Inl (KeyError ''t'')"
    by code_simp
  then have p: "parse_js ?code = Inl (KeyError ''t'')"
    by (rule parse_js_Inl)
  from undeclared_name_raises_KeyError [OF a s b d disjI1 [OF r]] a l s b d r p show ?thesis
    by blast
qed

subsection \<open>Keys with a comma or a colon\<close>

lemma split_nonempty: "split sep s \<noteq> []"
  by (induction s) (auto split: list.splits)

lemma split_append_sep: "split sep (a @ sep # b) = split sep a @ split sep b"
proof (induction a)
  case Nil
  then show ?case by simp
next
  case (Cons c a)
  then show ?case
    using split_nonempty [of sep a] by (auto split: list.splits)
qed

lemma hd_split: "hd (split sep s) = takeWhile (\<lambda>c. c \<noteq> sep) s"
  using split_nonempty by (induction s) (auto split: list.splits)

lemma length_split: "length (split sep s) = Suc (length (filter (\<lambda>c. c = sep) s))"
  using split_nonempty by (induction s) (auto split: list.splits)

lemma string_body_unclosed:
  "quoted_body q (w @ x) \<Longrightarrow> q \<noteq> CHR 0x5C \<Longrightarrow> string_body q w = None"
proof (induction q w rule: quoted_body.induct)
  case (1 q)
  then show ?case by simp
next
  case (2 q c)
  then show ?case
    by (cases x) (auto split: if_splits)
next
  case (3 q c d cs)
  then show ?case
    by (auto split: if_splits)
qed

lemma unclosed_string_fails:
  assumes "q = CHR 0x27 \<or> q = CHR 0x22" and "quoted_body q (w @ x)"
  shows "js_object_parse (q # w) = Inl SyntaxError"
proof -
  from assms(1) have "\<not> is_id_start q" "\<not> is_digit q" "\<not> is_pointfloat_start (q # w)"
    "q \<noteq> CHR '' ''" "q \<noteq> CHR 0x09" "q \<noteq> CHR 0x5C"
    by (auto simp: is_id_start_def is_digit_def is_pointfloat_start_def split: list.splits)
  with assms(1) string_body_unclosed [OF assms(2)] have "tokenize (q # w) = Inl SyntaxError"
    by auto
  with \<open>q \<noteq> CHR '' ''\<close> \<open>q \<noteq> CHR 0x09\<close> show ?thesis
    by (simp add: js_object_parse_def ast_parse_def)
qed


lemma keyed_entries_fails:
  "p \<in> set ps \<Longrightarrow> \<not> entry_in_order p \<Longrightarrow> \<exists>e. keyed_entries st ps = Inl e"
proof (induction ps)
  case Nil
  then show ?case by simp
next
  case (Cons a ps)
  show ?case
  proof (cases "entry_in_order a")
    case True
    with Cons.prems have "p \<in> set ps"
      by auto
    from Cons.IH [OF this Cons.prems(2)] show ?thesis
      by (auto split: list.splits sum.splits)
  next
    case False
    then show ?thesis
      by (cases "js_object_parse (hd (split (CHR '':'') a))")
         (auto simp: entry_in_order_def split: list.splits sum.splits)
  qed
qed

lemma takeWhile_proper_prefix:
  "sep \<in> set s \<Longrightarrow> \<exists>x. s = takeWhile (\<lambda>c. c \<noteq> sep) s @ x"
  by (metis takeWhile_dropWhile_id)

lemma quoted_key_entry_out_of_order:
  assumes q: "q = CHR 0x27 \<or> q = CHR 0x22"
    and b: "quoted_body q inner"
    and s: "CHR '','' \<in> set inner \<or> CHR '':'' \<in> set inner"
  shows "\<not> entry_in_order (takeWhile (\<lambda>c. c \<noteq> CHR '','') (q # inner @ q # CHR '':'' # rest))"
proof (cases "CHR '','' \<in> set inner")
  case True
  let ?w = "takeWhile (\<lambda>c. c \<noteq> CHR '','') inner"
  from q True have p: "takeWhile (\<lambda>c. c \<noteq> CHR '','') (q # inner @ q # CHR '':'' # rest) = q # ?w"
    by (auto simp: takeWhile_append1 dest: takeWhile_eq_all_conv [THEN iffD1])
  show ?thesis
  proof
    assume "entry_in_order (takeWhile (\<lambda>c. c \<noteq> CHR '','') (q # inner @ q # CHR '':'' # rest))"
    then have "entry_in_order (q # ?w)"
      by (simp only: p)
    then obtain k v where kv: "split (CHR '':'') (q # ?w) = [k, v]"
      and ok: "\<not> isl (js_object_parse k)"
      by (auto simp: entry_in_order_def simp del: split.simps split: list.splits)
    from kv have "k = hd (split (CHR '':'') (q # ?w))"
      by (simp del: split.simps)
    with q have k: "k = q # takeWhile (\<lambda>c. c \<noteq> CHR '':'') ?w"
      by (auto simp: hd_split simp del: split.simps)
    have "\<exists>x. inner = takeWhile (\<lambda>c. c \<noteq> CHR '':'') ?w @ x"
      by (metis append.assoc takeWhile_dropWhile_id)
    with b obtain x where "quoted_body q (takeWhile (\<lambda>c. c \<noteq> CHR '':'') ?w @ x)"
      by metis
    from unclosed_string_fails [OF q this] k ok show False
      by simp
  qed
next
  case False
  with s have c: "CHR '':'' \<in> set inner"
    by simp
  have "takeWhile (\<lambda>c. c \<noteq> CHR '','') (inner @ q # CHR '':'' # rest)
          = inner @ takeWhile (\<lambda>c. c \<noteq> CHR '','') (q # CHR '':'' # rest)"
    by (rule takeWhile_append2) (use False in auto)
  with q
  have p: "takeWhile (\<lambda>c. c \<noteq> CHR '','') (q # inner @ q # CHR '':'' # rest)
             = q # inner @ q # CHR '':'' # takeWhile (\<lambda>c. c \<noteq> CHR '','') rest"
    by auto
  from c have "filter (\<lambda>c. c = CHR '':'') inner \<noteq> []"
    by (auto simp: filter_empty_conv)
  then have "2 \<le> length (filter (\<lambda>c. c = CHR '':'')
                 (q # inner @ q # CHR '':'' # takeWhile (\<lambda>c. c \<noteq> CHR '','') rest))"
    by (cases "filter (\<lambda>c. c = CHR '':'') inner") auto
  then have "3 \<le> length (split (CHR '':'')
                 (q # inner @ q # CHR '':'' # takeWhile (\<lambda>c. c \<noteq> CHR '','') rest))"
    by (simp only: length_split)
  then show ?thesis
    unfolding p entry_in_order_def by (auto simp del: split.simps split: list.splits)
qed


lemma quoted_stringE:
  assumes "quoted_string k"
  obtains q inner where "q = CHR 0x27 \<or> q = CHR 0x22" "k = q # inner @ [q]" "quoted_body q inner"
proof -
  from assms obtain q r where k: "k = q # r" and q: "q = CHR 0x27 \<or> q = CHR 0x22"
    and r: "r \<noteq> []" "last r = q" "quoted_body q (butlast r)"
    by (auto simp: quoted_string_def split: list.splits)
  from r(1,2) have "r = butlast r @ [q]"
    by (metis append_butlast_last_id)
  with k q r(3) that [of q "butlast r"] show thesis
    by simp
qed

lemma exec_calldict_fails:
  assumes "p \<in> set (split (CHR '','') body)" and "\<not> entry_in_order p" and "body \<noteq> []"
  shows "\<exists>e. exec_calldict st tb tc body = Inl e"
  using keyed_entries_fails [OF assms(1,2), of st] assms(3)
  by (auto simp: exec_calldict_def split: sum.splits)

text \<open>
  C10. A keyed call one of whose keys is a quoted string with a comma or a colon in it makes
  \<^verbatim>\<open>parse_js\<close> raise an error, although the statement matches the pattern of the keyed
  call: the body is split at every comma and every part at every colon, inside the quotes
  as well. Here \<open>k\<close> is the key, at the start of the body or after a comma, and the colon
  of its entry follows it.
\<close>

theorem quoted_key_with_separator_fails:
  assumes "mo \<in> set (finditer pattern code)"
    and "lastgroup mo = Some ''calldict''"
    and "stmt_group mo 3 = Inr body"
    and "body = before @ k @ CHR '':'' # rest"
    and "before = [] \<or> last before = CHR '',''"
    and "quoted_string k"
    and "CHR '','' \<in> set k \<or> CHR '':'' \<in> set k"
  shows "\<exists>e. parse_js code = Inl e"
proof -
  from assms(6) obtain q inner where q: "q = CHR 0x27 \<or> q = CHR 0x22"
    and k: "k = q # inner @ [q]" and b: "quoted_body q inner"
    by (rule quoted_stringE)
  from assms(7) q k have sep: "CHR '','' \<in> set inner \<or> CHR '':'' \<in> set inner"
    by auto
  let ?entry = "q # inner @ q # CHR '':'' # rest"
  let ?p = "takeWhile (\<lambda>c. c \<noteq> CHR '','') ?entry"
  from quoted_key_entry_out_of_order [OF q b sep] have bad: "\<not> entry_in_order ?p" .
  from assms(4) k have body: "body = before @ ?entry"
    by simp
  have "?p \<in> set (split (CHR '','') body)"
  proof (cases "before = []")
    case True
    with body have "?p = hd (split (CHR '','') body)"
      by (simp only: hd_split append_Nil)
    with split_nonempty [of "CHR '',''" body] show ?thesis
      by (metis list.set_sel(1))
  next
    case False
    with assms(5) have "before = butlast before @ [CHR '','']"
      by (metis append_butlast_last_id)
    with body have "body = butlast before @ CHR '','' # ?entry"
      by (metis append.assoc append_Cons append_Nil)
    then have "split (CHR '','') body
                 = split (CHR '','') (butlast before) @ split (CHR '','') ?entry"
      by (simp only: split_append_sep)
    moreover have "?p = hd (split (CHR '','') ?entry)"
      by (simp only: hd_split)
    ultimately show ?thesis
      using split_nonempty [of "CHR '',''" ?entry] by (metis Un_iff list.set_sel(1) set_append)
  qed
  moreover from body have "body \<noteq> []"
    by simp
  ultimately have x: "\<exists>e. exec_calldict s tb tc body = Inl e" for s tb tc
    using exec_calldict_fails [OF _ bad] by blast
  from assms(3) stmt_group_lastindex obtain li where li: "lastindex mo = Some li"
    by blast
  have "\<exists>e. exec_match s mo = Inl e" for s
  proof -
    from assms(3) have "group_at (drop (li - 1) (groups mo)) 3 = Inr body"
      by (simp add: stmt_group_def li)
    with x show ?thesis
      by (auto simp: exec_match_calldict [OF li assms(2)] args3_def split: sum.splits)
  qed
  from scan_fails [OF assms(1) this]
  obtain e where "scan code 0 initial_state (finditer pattern code) = Inl e"
    by blast
  then show ?thesis
    by (simp add: parse_js_def decode_def)
qed

theorem quoted_key_with_separator_fails_witness:
  \<open>\<exists>code mo body k.
     code = ''var s=[];dwr.engine._remoteHandleCallback('1','2',{"n":s,'a,b':s});''
     \<and> k = CHR 0x27 # ''a,b'' @ [CHR 0x27]
     \<and> mo \<in> set (finditer pattern code) \<and> lastgroup mo = Some ''calldict''
     \<and> stmt_group mo 3 = Inr body
     \<and> body = ''"n":s,'' @ k @ CHR '':'' # ''s''
     \<and> last ''"n":s,'' = CHR '',''
     \<and> quoted_string k \<and> CHR '','' \<in> set k
     \<and> (\<exists>e. parse_js code = Inl e)
     \<and> parse_js code = Inl (ValueError Unpack)\<close>
proof -
  let ?code = \<open>''var s=[];dwr.engine._remoteHandleCallback('1','2',{"n":s,'a,b':s});''\<close>
  let ?k = "CHR 0x27 # ''a,b'' @ [CHR 0x27]"
  let ?mo = "finditer pattern ?code ! 1"
  have "length (finditer pattern ?code) = 2"
    by code_simp
  then have m: "?mo \<in> set (finditer pattern ?code)"
    by simp
  have l: "lastgroup ?mo = Some ''calldict''"
    by code_simp
  have g: \<open>stmt_group ?mo 3 = Inr (''"n":s,'' @ ?k @ CHR '':'' # ''s'')\<close>
    by code_simp
  have e: \<open>''"n":s,'' = [] \<or> last ''"n":s,'' = CHR '',''\<close>
    by simp
  have qs: "quoted_string ?k"
    by code_simp
  have c: "CHR '','' \<in> set ?k \<or> CHR '':'' \<in> set ?k"
    by simp
  have "decode ?code = Inl (ValueError Unpack)"
    by code_simp
  then have p: "parse_js ?code = Inl (ValueError Unpack)"
    by (rule parse_js_Inl)
  from quoted_key_with_separator_fails [OF m l g refl e qs c] m l g qs p show ?thesis
    by auto
qed

end
